theory Spec2Isabelle
  imports Main "HOL-Library.Sublist"
begin

section \<open>Characters and strings of the Python source\<close>

text \<open>
  A Python \<^verbatim>\<open>str\<close> is modelled as a \<^typ>\<open>string\<close>: a list of characters whose
  code points lie below 256. The character classes below are the ones the source's
  regular expressions and \<^verbatim>\<open>str\<close> methods use, restricted to that range.
\<close>

definition LF :: char where
  "LF = CHR 0x0A"

text \<open>The class \<^verbatim>\<open>[0-9]\<close>.\<close>

definition is_digit :: "char \<Rightarrow> bool" where
  "is_digit c = (c \<in> set ''0123456789'')"

text \<open>The class \<^verbatim>\<open>[A-Za-z0-9]\<close>.\<close>

definition is_alnum :: "char \<Rightarrow> bool" where
  "is_alnum c = (let n = (of_char c :: nat) in
     (65 \<le> n \<and> n \<le> 90) \<or> (97 \<le> n \<and> n \<le> 122) \<or> (48 \<le> n \<and> n \<le> 57))"

text \<open>The class \<^verbatim>\<open>[A-Za-z0-9._-]\<close>.\<close>

definition is_name_char :: "char \<Rightarrow> bool" where
  "is_name_char c = (is_alnum c \<or> c = CHR ''.'' \<or> c = CHR ''_'' \<or> c = CHR ''-'')"

text \<open>
  \<^verbatim>\<open>str.isspace\<close>, which is also the class \<^verbatim>\<open>\s\<close> of a \<^verbatim>\<open>str\<close> pattern: the code
  points 9 to 13, 28 to 32, 133 and 160.
\<close>

definition is_space :: "char \<Rightarrow> bool" where
  "is_space c = (let n = (of_char c :: nat) in
     (9 \<le> n \<and> n \<le> 13) \<or> (28 \<le> n \<and> n \<le> 32) \<or> n = 133 \<or> n = 160)"

text \<open>The line boundaries of \<^verbatim>\<open>str.splitlines\<close>: 10 to 13, 28 to 30 and 133.\<close>

definition is_linebreak :: "char \<Rightarrow> bool" where
  "is_linebreak c = (let n = (of_char c :: nat) in
     (10 \<le> n \<and> n \<le> 13) \<or> (28 \<le> n \<and> n \<le> 30) \<or> n = 133)"

text \<open>\<^verbatim>\<open>s.strip()\<close> removes the white space at both ends.\<close>

definition strip :: "string \<Rightarrow> string" where
  "strip s = rev (dropWhile is_space (rev (dropWhile is_space s)))"

text \<open>\<^verbatim>\<open>s.startswith(p)\<close>.\<close>

definition startswith :: "string \<Rightarrow> string \<Rightarrow> bool" where
  "startswith s p = (take (length p) s = p)"

text \<open>
  \<^verbatim>\<open>s.splitlines()\<close>. The flag says that the previous character was a carriage
  return, so that a line feed after it belongs to the same boundary; the second argument
  is the current line, reversed.
\<close>

fun splitlines_from :: "bool \<Rightarrow> string \<Rightarrow> string \<Rightarrow> string list" where
  "splitlines_from cr cur [] = (if cur = [] then [] else [rev cur])"
| "splitlines_from cr cur (c # s) =
     (if c = LF \<and> cr then splitlines_from False cur s
      else if is_linebreak c then rev cur # splitlines_from (c = CHR 0x0D) [] s
      else splitlines_from False (c # cur) s)"

definition splitlines :: "string \<Rightarrow> string list" where
  "splitlines s = splitlines_from False [] s"

text \<open>\<^verbatim>\<open>s.split(":", 1)[1]\<close> for a string that holds a colon: what follows the first one.\<close>

definition after_colon :: "string \<Rightarrow> string" where
  "after_colon s = drop 1 (dropWhile (\<lambda>c. c \<noteq> CHR '':'') s)"

text \<open>\<^verbatim>\<open>str(n)\<close> of a natural number, as an f-string formats it.\<close>

definition digit_char :: "nat \<Rightarrow> char" where
  "digit_char d = ''0123456789'' ! d"

fun str_nat :: "nat \<Rightarrow> string" where
  "str_nat n = (if n < 10 then [digit_char n] else str_nat (n div 10) @ [digit_char (n mod 10)])"

declare str_nat.simps [simp del]

text \<open>
  \<^verbatim>\<open>int(s)\<close> of a string of decimal digits. The interpreter's limit on the length of
  a numeral (4300 digits unless configured otherwise) is not modelled.
\<close>

definition digit_val :: "char \<Rightarrow> nat" where
  "digit_val c = of_char c - 48"

definition int_of_digits :: "string \<Rightarrow> nat" where
  "int_of_digits s = foldl (\<lambda>a c. 10 * a + digit_val c) 0 s"

text \<open>\<^verbatim>\<open>s.lower()\<close>, which the model applies to letters and digits of ASCII only.\<close>

definition lower_char :: "char \<Rightarrow> char" where
  "lower_char c =
     (case map_of (zip ''ABCDEFGHIJKLMNOPQRSTUVWXYZ'' ''abcdefghijklmnopqrstuvwxyz'') c of
        Some d \<Rightarrow> d | None \<Rightarrow> c)"

definition lower :: "string \<Rightarrow> string" where
  "lower s = map lower_char s"

section \<open>Regular expressions with backtracking\<close>

text \<open>
  The patterns of the source are matched by Python's backtracking engine: alternatives
  are tried from left to right, a greedy quantifier tries the longest repetition first
  and a lazy one the shortest, and the first way that lets the whole pattern match is
  taken. A match state is the rest of the input with the groups captured so far;
  \<open>rmatch r st\<close> lists, in the order the engine tries them, the states in which a match
  of \<open>r\<close> from \<open>st\<close> can end. An iteration of a repetition must consume input, so the
  length of the rest bounds the number of iterations.
\<close>

type_synonym groups = "string \<rightharpoonup> string"
type_synonym mstate = "string \<times> groups"

datatype re =
    Cls "char \<Rightarrow> bool"
  | Eps
  | Eos
  | Seq re re
  | Alt re re
  | Opt re
  | Star re
  | LazyStar re
  | Grp string re

fun star_iter :: "(mstate \<Rightarrow> mstate list) \<Rightarrow> nat \<Rightarrow> mstate \<Rightarrow> mstate list" where
  "star_iter f 0 st = [st]"
| "star_iter f (Suc n) st =
     concat (map (star_iter f n) (filter (\<lambda>st'. length (fst st') < length (fst st)) (f st))) @ [st]"

fun lazy_iter :: "(mstate \<Rightarrow> mstate list) \<Rightarrow> nat \<Rightarrow> mstate \<Rightarrow> mstate list" where
  "lazy_iter f 0 st = [st]"
| "lazy_iter f (Suc n) st =
     st # concat (map (lazy_iter f n) (filter (\<lambda>st'. length (fst st') < length (fst st)) (f st)))"

text \<open>
  \<open>Eos\<close> is \<^verbatim>\<open>$\<close> without the MULTILINE flag: the end of the string, or the place just
  before a line feed that ends the string.
\<close>

fun rmatch :: "re \<Rightarrow> mstate \<Rightarrow> mstate list" where
  "rmatch (Cls p) st = (case fst st of [] \<Rightarrow> [] | c # cs \<Rightarrow> if p c then [(cs, snd st)] else [])"
| "rmatch Eps st = [st]"
| "rmatch Eos st = (if fst st = [] \<or> fst st = [LF] then [st] else [])"
| "rmatch (Seq a b) st = concat (map (rmatch b) (rmatch a st))"
| "rmatch (Alt a b) st = rmatch a st @ rmatch b st"
| "rmatch (Opt a) st = rmatch a st @ [st]"
| "rmatch (Star a) st = star_iter (rmatch a) (length (fst st)) st"
| "rmatch (LazyStar a) st = lazy_iter (rmatch a) (length (fst st)) st"
| "rmatch (Grp n a) st =
     map (\<lambda>st'. (fst st', (snd st')(n \<mapsto> take (length (fst st) - length (fst st')) (fst st))))
       (rmatch a st)"

text \<open>
  \<^verbatim>\<open>pattern.match(s)\<close>: the match is tried at the start of the string only, which is
  where a leading \<^verbatim>\<open>^\<close> holds, so the patterns below leave \<^verbatim>\<open>^\<close> out. The result is the
  groups of the first successful way, or \<open>None\<close>.
\<close>

definition re_match :: "re \<Rightarrow> string \<Rightarrow> groups option" where
  "re_match r s = (case rmatch r (s, Map.empty) of [] \<Rightarrow> None | st # _ \<Rightarrow> Some (snd st))"

definition chr :: "char \<Rightarrow> re" where
  "chr c = Cls (\<lambda>x. x = c)"

definition Plus :: "re \<Rightarrow> re" where
  "Plus r = Seq r (Star r)"

text \<open>
  \<^verbatim>\<open>_VALID_PACKAGE_NAME = re.compile(r"^[A-Za-z0-9]([A-Za-z0-9._-]*[A-Za-z0-9])?$")\<close>
\<close>

definition VALID_PACKAGE_NAME :: re where
  "VALID_PACKAGE_NAME =
     Seq (Cls is_alnum)
       (Seq (Opt (Grp ''1'' (Seq (Star (Cls is_name_char)) (Cls is_alnum)))) Eos)"

text \<open>
  \<^verbatim>\<open>_REQUIREMENT_LINE = re.compile(r"^([A-Za-z0-9]([A-Za-z0-9._-]*[A-Za-z0-9])?)(\[.*?\])?[^;]*")\<close>.
  The dot matches every character but the line feed.
\<close>

definition REQUIREMENT_LINE :: re where
  "REQUIREMENT_LINE =
     Seq (Grp ''1'' (Seq (Cls is_alnum)
                      (Opt (Grp ''2'' (Seq (Star (Cls is_name_char)) (Cls is_alnum))))))
       (Seq (Opt (Grp ''3'' (Seq (chr CHR ''['')
                              (Seq (LazyStar (Cls (\<lambda>c. c \<noteq> LF))) (chr CHR '']'')))))
          (Star (Cls (\<lambda>c. c \<noteq> CHR '';''))))"

section \<open>Exceptions\<close>

text \<open>
  The exception classes that the source names or that its calls can raise. A function
  that can raise returns a value of \<open>exn + 'a\<close>, with \<open>Inl\<close> for the exception.
\<close>

datatype exn =
    CalledProcessError
  | URLError
  | HTTPError
  | TimeoutError
  | RemoteDisconnected
  | UnicodeDecodeError
  | InvalidURL
  | JSONDecodeError
  | KeyError string
  | TypeError
  | InvalidVersion string
  | FileNotFoundError
  | PermissionError
  | IsADirectoryError

section \<open>The version class of the packaging library\<close>

text \<open>
  Modelled from the spec: the source imports \<^verbatim>\<open>Version\<close> from the third-party library
  \<^verbatim>\<open>packaging.version\<close>, which is not part of the repository. The spec (4.3) asks for
  PEP-440 ordering with release segments and pre-release and post-release qualifiers;
  the model follows PEP 440 as that library implements it: one regular expression for
  the syntax, and a comparison key with sentinels for the missing parts.
\<close>

text \<open>A literal of a pattern compiled with IGNORECASE.\<close>

definition istr :: "string \<Rightarrow> re" where
  "istr s = foldr (\<lambda>c r. Seq (Cls (\<lambda>x. lower_char x = c)) r) s Eps"

fun alts :: "re list \<Rightarrow> re" where
  "alts [] = Cls (\<lambda>c. False)"
| "alts [r] = r"
| "alts (r # rs) = Alt r (alts rs)"

text \<open>The class \<^verbatim>\<open>[-_\.]\<close>.\<close>

definition is_sep :: "char \<Rightarrow> bool" where
  "is_sep c = (c = CHR ''-'' \<or> c = CHR ''_'' \<or> c = CHR ''.'')"

definition digits1 :: re where
  "digits1 = Plus (Cls is_digit)"

text \<open>
  The parts of \<^verbatim>\<open>VERSION_PATTERN\<close>, which is compiled with IGNORECASE: the epoch
  \<^verbatim>\<open>(?P<epoch>[0-9]+)!\<close>, the release \<^verbatim>\<open>(?P<release>[0-9]+(?:\.[0-9]+)*)\<close>, the
  pre-release, the post-release, the development release and the local version.
\<close>

definition re_epoch :: re where
  "re_epoch = Seq (Grp ''epoch'' digits1) (chr CHR ''!'')"

definition re_release :: re where
  "re_release = Grp ''release'' (Seq digits1 (Star (Seq (chr CHR ''.'') digits1)))"

text \<open>\<^verbatim>\<open>(?P<pre>[-_\.]?(?P<pre_l>alpha|a|beta|b|preview|pre|c|rc)[-_\.]?(?P<pre_n>[0-9]+)?)\<close>\<close>

definition re_pre :: re where
  "re_pre =
     Grp ''pre''
       (Seq (Opt (Cls is_sep))
          (Seq (Grp ''pre_l'' (alts (map istr
                  [''alpha'', ''a'', ''beta'', ''b'', ''preview'', ''pre'', ''c'', ''rc''])))
             (Seq (Opt (Cls is_sep)) (Opt (Grp ''pre_n'' digits1)))))"

text \<open>\<^verbatim>\<open>(?P<post>(?:-(?P<post_n1>[0-9]+))|(?:[-_\.]?(?P<post_l>post|rev|r)[-_\.]?(?P<post_n2>[0-9]+)?))\<close>\<close>

definition re_post :: re where
  "re_post =
     Grp ''post''
       (Alt (Seq (chr CHR ''-'') (Grp ''post_n1'' digits1))
            (Seq (Opt (Cls is_sep))
               (Seq (Grp ''post_l'' (alts (map istr [''post'', ''rev'', ''r''])))
                  (Seq (Opt (Cls is_sep)) (Opt (Grp ''post_n2'' digits1))))))"

text \<open>\<^verbatim>\<open>(?P<dev>[-_\.]?(?P<dev_l>dev)[-_\.]?(?P<dev_n>[0-9]+)?)\<close>\<close>

definition re_dev :: re where
  "re_dev =
     Grp ''dev''
       (Seq (Opt (Cls is_sep))
          (Seq (Grp ''dev_l'' (istr ''dev''))
             (Seq (Opt (Cls is_sep)) (Opt (Grp ''dev_n'' digits1)))))"

text \<open>\<^verbatim>\<open>\+(?P<local>[a-z0-9]+(?:[-_\.][a-z0-9]+)*)\<close>\<close>

definition re_local :: re where
  "re_local =
     Seq (chr CHR ''+'')
       (Grp ''local'' (Seq (Plus (Cls is_alnum)) (Star (Seq (Cls is_sep) (Plus (Cls is_alnum))))))"

text \<open>
  \<^verbatim>\<open>VERSION_PATTERN\<close>: an optional \<^verbatim>\<open>v\<close>, then an optional epoch, the release and the
  optional qualifiers, then an optional local version.
\<close>

definition VERSION_PATTERN :: re where
  "VERSION_PATTERN =
     Seq (Opt (Cls (\<lambda>c. lower_char c = CHR ''v'')))
       (Seq
          (Seq (Opt re_epoch)
             (Seq re_release (Seq (Opt re_pre) (Seq (Opt re_post) (Opt re_dev)))))
          (Opt re_local))"

text \<open>
  \<^verbatim>\<open>Version._regex = re.compile(r"^\s*" + VERSION_PATTERN + r"\s*$", re.VERBOSE | re.IGNORECASE)\<close>
\<close>

definition Version_regex :: re where
  "Version_regex =
     Seq (Star (Cls is_space)) (Seq VERSION_PATTERN (Seq (Star (Cls is_space)) Eos))"

text \<open>\<^verbatim>\<open>s.split(sep)\<close> for separators of one character; the second argument is the
  current part, reversed.\<close>

fun split_from :: "(char \<Rightarrow> bool) \<Rightarrow> string \<Rightarrow> string \<Rightarrow> string list" where
  "split_from p cur [] = [rev cur]"
| "split_from p cur (c # s) =
     (if p c then rev cur # split_from p [] s else split_from p (c # cur) s)"

definition split_on :: "(char \<Rightarrow> bool) \<Rightarrow> string \<Rightarrow> string list" where
  "split_on p s = split_from p [] s"

datatype local_part = LInt nat | LStr string

record version =
  epoch :: nat
  release :: "nat list"
  pre :: "(string \<times> nat) option"
  post :: "(string \<times> nat) option"
  dev :: "(string \<times> nat) option"
  local :: "local_part list option"

text \<open>
  \<^verbatim>\<open>_parse_letter_version(letter, number)\<close>: the spellings of a qualifier are
  normalised, a missing number is 0, and a number without a letter is the implicit
  post-release \<^verbatim>\<open>1.0-1\<close>.
\<close>

definition parse_letter_version :: "string option \<Rightarrow> string option \<Rightarrow> (string \<times> nat) option" where
  "parse_letter_version letter number =
     (if letter \<noteq> None \<and> letter \<noteq> Some [] then
        (let l = lower (case letter of Some x \<Rightarrow> x | None \<Rightarrow> []);
             l' = (if l = ''alpha'' then ''a''
                   else if l = ''beta'' then ''b''
                   else if l \<in> set [''c'', ''pre'', ''preview''] then ''rc''
                   else if l \<in> set [''rev'', ''r''] then ''post''
                   else l)
         in Some (l', (case number of None \<Rightarrow> 0 | Some d \<Rightarrow> int_of_digits d)))
      else (case number of
              None \<Rightarrow> None
            | Some d \<Rightarrow> if d \<noteq> [] then Some (''post'', int_of_digits d) else None))"

text \<open>\<^verbatim>\<open>_parse_local_version(local)\<close>: the parts between separators, numbers as numbers.\<close>

definition parse_local_version :: "string option \<Rightarrow> local_part list option" where
  "parse_local_version l =
     map_option
       (\<lambda>s. map (\<lambda>part. if part \<noteq> [] \<and> list_all is_digit part then LInt (int_of_digits part)
                         else LStr (lower part))
               (split_on is_sep s)) l"

text \<open>
  \<^verbatim>\<open>Version(s)\<close> raises \<^verbatim>\<open>InvalidVersion\<close> when the pattern does not match. The
  release group takes part in every match.
\<close>

definition Version :: "string \<Rightarrow> exn + version" where
  "Version s =
     (case re_match Version_regex s of
        None \<Rightarrow> Inl (InvalidVersion s)
      | Some g \<Rightarrow> Inr \<lparr>
          epoch = (case g ''epoch'' of None \<Rightarrow> 0 | Some e \<Rightarrow> if e = [] then 0 else int_of_digits e),
          release = map int_of_digits
                      (split_on (\<lambda>c. c = CHR ''.'') (case g ''release'' of None \<Rightarrow> [] | Some r \<Rightarrow> r)),
          pre = parse_letter_version (g ''pre_l'') (g ''pre_n''),
          post = parse_letter_version (g ''post_l'')
                   (case g ''post_n1'' of None \<Rightarrow> g ''post_n2''
                    | Some n \<Rightarrow> if n = [] then g ''post_n2'' else Some n),
          dev = parse_letter_version (g ''dev_l'') (g ''dev_n''),
          local = parse_local_version (g ''local'') \<rparr>)"

text \<open>
  The comparison key \<^verbatim>\<open>_cmpkey\<close>. The sentinels \<^verbatim>\<open>NegativeInfinity\<close> and
  \<^verbatim>\<open>Infinity\<close> stand for missing parts: a development release without pre-release or
  post-release sorts before every pre-release, a final release after them, a missing
  post-release before every post-release, a missing development part after every
  development release, and a missing local version before every local version. Trailing
  zeros of the release do not count.
\<close>

datatype 'a inf = NegativeInfinity | Fin 'a | Infinity

record key =
  k_epoch :: nat
  k_release :: "nat list"
  k_pre :: "(string \<times> nat) inf"
  k_post :: "(string \<times> nat) inf"
  k_dev :: "(string \<times> nat) inf"
  k_local :: "(nat inf \<times> string) list inf"

definition cmpkey :: "version \<Rightarrow> key" where
  "cmpkey v = \<lparr>
     k_epoch = epoch v,
     k_release = rev (dropWhile (\<lambda>x. x = 0) (rev (release v))),
     k_pre = (if pre v = None \<and> post v = None \<and> dev v \<noteq> None then NegativeInfinity
              else (case pre v of None \<Rightarrow> Infinity | Some p \<Rightarrow> Fin p)),
     k_post = (case post v of None \<Rightarrow> NegativeInfinity | Some p \<Rightarrow> Fin p),
     k_dev = (case dev v of None \<Rightarrow> Infinity | Some d \<Rightarrow> Fin d),
     k_local = (case local v of
                  None \<Rightarrow> NegativeInfinity
                | Some ps \<Rightarrow> Fin (map (\<lambda>p. case p of LInt i \<Rightarrow> (Fin i, [])
                                                    | LStr s \<Rightarrow> (NegativeInfinity, s)) ps)) \<rparr>"

text \<open>
  Python compares tuples by the first position where they differ (under \<^verbatim>\<open>==\<close>), and
  there by \<^verbatim>\<open><\<close>; a proper prefix is smaller. Strings compare by code points.
\<close>

fun tuple_lt :: "('a \<Rightarrow> 'a \<Rightarrow> bool) \<Rightarrow> 'a list \<Rightarrow> 'a list \<Rightarrow> bool" where
  "tuple_lt lt [] [] = False"
| "tuple_lt lt [] (y # ys) = True"
| "tuple_lt lt (x # xs) [] = False"
| "tuple_lt lt (x # xs) (y # ys) = (if x = y then tuple_lt lt xs ys else lt x y)"

definition str_lt :: "string \<Rightarrow> string \<Rightarrow> bool" where
  "str_lt = tuple_lt (\<lambda>a b. (of_char a :: nat) < of_char b)"

definition pair_lt :: "('a \<Rightarrow> 'a \<Rightarrow> bool) \<Rightarrow> ('b \<Rightarrow> 'b \<Rightarrow> bool) \<Rightarrow> 'a \<times> 'b \<Rightarrow> 'a \<times> 'b \<Rightarrow> bool" where
  "pair_lt lt1 lt2 p q =
     (if fst p \<noteq> fst q then lt1 (fst p) (fst q)
      else if snd p \<noteq> snd q then lt2 (snd p) (snd q)
      else False)"

text \<open>
  \<^verbatim>\<open>x < y\<close> for two different values, each a sentinel or not:
  \<^verbatim>\<open>NegativeInfinity.__lt__\<close> answers true and \<^verbatim>\<open>Infinity.__lt__\<close> false; with the
  sentinel on the right the reflected \<^verbatim>\<open>__gt__\<close> answers, true for \<^verbatim>\<open>Infinity\<close> and
  false for \<^verbatim>\<open>NegativeInfinity\<close>.
\<close>

fun inf_lt :: "('a \<Rightarrow> 'a \<Rightarrow> bool) \<Rightarrow> 'a inf \<Rightarrow> 'a inf \<Rightarrow> bool" where
  "inf_lt lt NegativeInfinity y = True"
| "inf_lt lt Infinity y = False"
| "inf_lt lt (Fin a) (Fin b) = lt a b"
| "inf_lt lt (Fin a) Infinity = True"
| "inf_lt lt (Fin a) NegativeInfinity = False"

definition letter_lt :: "string \<times> nat \<Rightarrow> string \<times> nat \<Rightarrow> bool" where
  "letter_lt = pair_lt str_lt (<)"

definition key_lt :: "key \<Rightarrow> key \<Rightarrow> bool" where
  "key_lt a b =
     (if k_epoch a \<noteq> k_epoch b then k_epoch a < k_epoch b
      else if k_release a \<noteq> k_release b then tuple_lt (<) (k_release a) (k_release b)
      else if k_pre a \<noteq> k_pre b then inf_lt letter_lt (k_pre a) (k_pre b)
      else if k_post a \<noteq> k_post b then inf_lt letter_lt (k_post a) (k_post b)
      else if k_dev a \<noteq> k_dev b then inf_lt letter_lt (k_dev a) (k_dev b)
      else if k_local a \<noteq> k_local b then
        inf_lt (tuple_lt (pair_lt (inf_lt (<)) str_lt)) (k_local a) (k_local b)
      else False)"

text \<open>\<^verbatim>\<open>Version.__lt__\<close>: the keys are compared.\<close>

definition version_lt :: "version \<Rightarrow> version \<Rightarrow> bool" where
  "version_lt v w = key_lt (cmpkey v) (cmpkey w)"

section \<open>The outside world\<close>

text \<open>
  The values \<^verbatim>\<open>json.loads\<close> returns; \<open>JNull\<close> is Python's \<^verbatim>\<open>None\<close>. A dictionary is
  an association list, looked up with \<^const>\<open>map_of\<close>.
\<close>

datatype json =
    JNull
  | JBool bool
  | JInt int
  | JFloat string
  | JStr string
  | JArr "json list"
  | JObj "(string \<times> json) list"

text \<open>
  \<^verbatim>\<open>data[k]\<close> with a string key: a dictionary without the key raises \<^verbatim>\<open>KeyError\<close>;
  a list, a string, a number, a boolean and \<^verbatim>\<open>None\<close> raise \<^verbatim>\<open>TypeError\<close>.
\<close>

fun subscript :: "json \<Rightarrow> string \<Rightarrow> exn + json" where
  "subscript (JObj kvs) k = (case map_of kvs k of None \<Rightarrow> Inl (KeyError k) | Some v \<Rightarrow> Inr v)"
| "subscript JNull k = Inl TypeError"
| "subscript (JBool b) k = Inl TypeError"
| "subscript (JInt i) k = Inl TypeError"
| "subscript (JFloat f) k = Inl TypeError"
| "subscript (JStr s) k = Inl TypeError"
| "subscript (JArr xs) k = Inl TypeError"

text \<open>
  What the program does to the outside world, in order: a subprocess that was run, with
  its arguments and its return code; a URL that was opened, with the timeout; a file
  that was opened; a line that was printed.
\<close>

datatype event =
    Run "string list" int
  | UrlOpen string nat
  | Open string
  | Print string

text \<open>
  The outside world answers each call, and its answer may depend on everything that
  happened before: \<open>subprocess_run\<close> gives the return code and the captured standard
  output of a command (the interpreter is assumed to start and its output to decode);
  \<open>urlopen\<close> gives the decoded body that \<^verbatim>\<open>urlopen(url, timeout=n)\<close> and
  \<^verbatim>\<open>response.read().decode()\<close> produce, or the exception one of them raises;
  \<open>json_loads\<close> is \<^verbatim>\<open>json.loads\<close>; \<open>open_file\<close> gives the lines that iterating over
  the opened file yields, or the exception.
\<close>

record env =
  sys_executable :: string
  subprocess_run :: "event list \<Rightarrow> string list \<Rightarrow> int \<times> string"
  urlopen :: "event list \<Rightarrow> string \<Rightarrow> nat \<Rightarrow> exn + string"
  json_loads :: "string \<Rightarrow> exn + json"
  open_file :: "event list \<Rightarrow> string \<Rightarrow> exn + string list"

section \<open>The operations of version\_checker.py\<close>

text \<open>
  \<^verbatim>\<open>get_installed_version\<close>: with \<^verbatim>\<open>check=True\<close> a return code other than 0 raises
  \<^verbatim>\<open>CalledProcessError\<close>, which is caught; otherwise the first line of the output
  that starts with \<^verbatim>\<open>Version:\<close> gives the version.
\<close>

definition pip_show_argv :: "env \<Rightarrow> string \<Rightarrow> string list" where
  "pip_show_argv e pkg = [sys_executable e, ''-m'', ''pip'', ''show'', pkg]"

definition get_installed_version :: "env \<Rightarrow> string \<Rightarrow> event list \<Rightarrow> string option \<times> event list" where
  "get_installed_version e pkg t =
     (let argv = pip_show_argv e pkg;
          (rc, out) = subprocess_run e t argv;
          t' = t @ [Run argv rc]
      in if rc \<noteq> 0 then (None, t')
         else (case List.find (\<lambda>line. startswith line ''Version:'') (splitlines out) of
                 None \<Rightarrow> (None, t')
               | Some line \<Rightarrow> (Some (strip (after_colon line)), t')))"

text \<open>The exceptions that \<^verbatim>\<open>get_latest_version\<close> catches; \<^verbatim>\<open>HTTPError\<close> is a subclass of
  \<^verbatim>\<open>URLError\<close>.\<close>

fun caught_by_latest :: "exn \<Rightarrow> bool" where
  "caught_by_latest URLError = True"
| "caught_by_latest HTTPError = True"
| "caught_by_latest JSONDecodeError = True"
| "caught_by_latest (KeyError k) = True"
| "caught_by_latest x = False"

text \<open>\<^verbatim>\<open>json.loads(body)["info"]["version"]\<close>.\<close>

definition info_version :: "env \<Rightarrow> string \<Rightarrow> exn + json" where
  "info_version e body =
     (case json_loads e body of
        Inl x \<Rightarrow> Inl x
      | Inr data \<Rightarrow> (case subscript data ''info'' of
                      Inl x \<Rightarrow> Inl x
                    | Inr info \<Rightarrow> subscript info ''version''))"

definition get_latest_version :: "env \<Rightarrow> string \<Rightarrow> event list \<Rightarrow> (exn + json) \<times> event list" where
  "get_latest_version e pkg t =
     (if re_match VALID_PACKAGE_NAME pkg = None then (Inr JNull, t)
      else
        (let url = ''https://pypi.org/pypi/'' @ pkg @ ''/json'';
             t' = t @ [UrlOpen url 10]
         in case (case urlopen e t url 10 of Inl x \<Rightarrow> Inl x | Inr body \<Rightarrow> info_version e body) of
              Inl x \<Rightarrow> (if caught_by_latest x then (Inr JNull, t') else (Inl x, t'))
            | Inr v \<Rightarrow> (Inr v, t')))"

definition pip_upgrade_argv :: "env \<Rightarrow> string \<Rightarrow> string list" where
  "pip_upgrade_argv e pkg = [sys_executable e, ''-m'', ''pip'', ''install'', ''--upgrade'', pkg]"

definition update_package :: "env \<Rightarrow> string \<Rightarrow> event list \<Rightarrow> bool \<times> event list" where
  "update_package e pkg t =
     (let argv = pip_upgrade_argv e pkg;
          rc = fst (subprocess_run e t argv)
      in (rc = 0, t @ [Run argv rc]))"

text \<open>The Check Result: the dictionary that \<^verbatim>\<open>check_package\<close> returns.\<close>

record result =
  package :: string
  installed :: "string option"
  latest :: json
  update_available :: bool
  updated :: bool

text \<open>
  \<^verbatim>\<open>check_package\<close>. \<^verbatim>\<open>Version(installed) < Version(latest)\<close> builds the left version
  first; \<^verbatim>\<open>Version\<close> of a value that is not a string raises \<^verbatim>\<open>TypeError\<close>. Nothing
  is caught here.
\<close>

definition check_package :: "env \<Rightarrow> string \<Rightarrow> bool \<Rightarrow> event list \<Rightarrow> (exn + result) \<times> event list" where
  "check_package e pkg do_update t =
     (let res = \<lparr>package = pkg, installed = None, latest = JNull,
                 update_available = False, updated = False\<rparr>;
          (inst, t1) = get_installed_version e pkg t;
          res = res\<lparr>installed := inst\<rparr>
      in case inst of
           None \<Rightarrow> (Inr res, t1 @ [Print (''  '' @ pkg @ '': not installed'')])
         | Some i \<Rightarrow>
            (case get_latest_version e pkg t1 of
               (Inl x, t2) \<Rightarrow> (Inl x, t2)
             | (Inr lat, t2) \<Rightarrow>
                (let res = res\<lparr>latest := lat\<rparr>
                 in if lat = JNull
                    then (Inr res, t2 @ [Print (''  '' @ pkg @ '': could not fetch latest version'')])
                    else
                      (case Version i of
                         Inl x \<Rightarrow> (Inl x, t2)
                       | Inr vi \<Rightarrow>
                          (case lat of
                             JStr l \<Rightarrow>
                              (case Version l of
                                 Inl x \<Rightarrow> (Inl x, t2)
                               | Inr vl \<Rightarrow>
                                  if version_lt vi vl then
                                    (let res = res\<lparr>update_available := True\<rparr>;
                                         t3 = t2 @ [Print (''  '' @ pkg @ '': '' @ i @ '' -> '' @ l
                                                           @ '' (update available)'')]
                                     in if do_update then
                                          (let (success, t4) = update_package e pkg t3;
                                               res = res\<lparr>updated := success\<rparr>
                                           in (Inr res,
                                               t4 @ [Print (if success
                                                  then ''  '' @ pkg @ '': updated successfully to '' @ l
                                                  else ''  '' @ pkg @ '': update failed'')]))
                                        else (Inr res, t3))
                                  else (Inr res,
                                        t2 @ [Print (''  '' @ pkg @ '': '' @ i @ '' (up to date)'')]))
                           | _ \<Rightarrow> (Inl TypeError, t2))))))"

text \<open>
  The loop over the lines of the requirements file (lines 114 to 120): what it appends
  to \<^verbatim>\<open>packages\<close>. \<^verbatim>\<open>match.group(1)\<close> is written as it is, an optional string.
\<close>

fun read_packages :: "string list \<Rightarrow> string option list" where
  "read_packages [] = []"
| "read_packages (raw # rest) =
     (let line = strip raw
      in if line = [] \<or> startswith line ''#'' then read_packages rest
         else (case re_match REQUIREMENT_LINE line of
                 None \<Rightarrow> read_packages rest
               | Some g \<Rightarrow> g ''1'' # read_packages rest))"

text \<open>The loop over \<^verbatim>\<open>packages\<close> (lines 125 to 127); \<^verbatim>\<open>if package\<close> holds for a string
  that is not empty.\<close>

fun check_packages :: "env \<Rightarrow> string option list \<Rightarrow> bool \<Rightarrow> event list \<Rightarrow> (exn + result list) \<times> event list" where
  "check_packages e [] do_update t = (Inr [], t)"
| "check_packages e (p # ps) do_update t =
     (case p of
        Some (c # cs) \<Rightarrow>
          (case check_package e (c # cs) do_update t of
             (Inl x, t1) \<Rightarrow> (Inl x, t1)
           | (Inr r, t1) \<Rightarrow>
              (case check_packages e ps do_update t1 of
                 (Inl x, t2) \<Rightarrow> (Inl x, t2)
               | (Inr rs, t2) \<Rightarrow> (Inr (r # rs), t2)))
      | _ \<Rightarrow> check_packages e ps do_update t)"

definition check_requirements_file :: "env \<Rightarrow> string \<Rightarrow> bool \<Rightarrow> event list \<Rightarrow> (exn + result list) \<times> event list" where
  "check_requirements_file e filepath do_update t =
     (case open_file e t filepath of
        Inl x \<Rightarrow>
          (if x = FileNotFoundError
           then (Inr [], t @ [Open filepath,
                   Print (''Error: requirements file '' @ [CHR 0x27] @ filepath @ [CHR 0x27] @ '' not found.'')])
           else (Inl x, t @ [Open filepath]))
      | Inr lines \<Rightarrow> check_packages e (read_packages lines) do_update (t @ [Open filepath]))"

text \<open>
  The parsed command line. The parser makes \<^verbatim>\<open>--package\<close> and \<^verbatim>\<open>--requirements\<close>
  exclusive and requires one of them; the option that is not given is \<^verbatim>\<open>None\<close>.
\<close>

record args =
  arg_package :: "string option"
  arg_requirements :: "string option"
  arg_update :: bool

text \<open>
  Lines 149 to 153 of \<^verbatim>\<open>main\<close>, which compute \<^verbatim>\<open>results\<close>. \<^verbatim>\<open>if args.package\<close> holds
  for a name that is not empty; otherwise the requirements path is opened, and
  \<^verbatim>\<open>open(None)\<close> raises \<^verbatim>\<open>TypeError\<close>.
\<close>

definition main_results :: "env \<Rightarrow> args \<Rightarrow> event list \<Rightarrow> (exn + result list) \<times> event list" where
  "main_results e a t =
     (let t0 = t @ [Print ''Checking for updates...'']
      in case arg_package a of
           Some (c # cs) \<Rightarrow>
             (case check_package e (c # cs) (arg_update a) t0 of
                (Inl x, t1) \<Rightarrow> (Inl x, t1)
              | (Inr r, t1) \<Rightarrow> (Inr [r], t1))
         | _ \<Rightarrow>
             (case arg_requirements a of
                None \<Rightarrow> (Inl TypeError, t0)
              | Some f \<Rightarrow> check_requirements_file e f (arg_update a) t0))"

text \<open>\<^verbatim>\<open>sum(1 for r in results if r["update_available"])\<close>\<close>

definition updates_available :: "result list \<Rightarrow> nat" where
  "updates_available results = sum_list (map (\<lambda>r. 1) (filter update_available results))"

text \<open>Lines 155 to 161 of \<^verbatim>\<open>main\<close>: the summary.\<close>

definition summary :: "result list \<Rightarrow> bool \<Rightarrow> event list" where
  "summary results upd =
     (let n = updates_available results
      in if n \<noteq> 0 then
           Print ([LF] @ str_nat n @ '' update(s) available.'')
             # (if \<not> upd then [Print ''Run with --update to apply updates.''] else [])
         else [Print ([LF] @ ''All packages are up to date.'')])"

definition main :: "env \<Rightarrow> args \<Rightarrow> event list \<Rightarrow> (exn + unit) \<times> event list" where
  "main e a t =
     (case main_results e a t of
        (Inl x, t1) \<Rightarrow> (Inl x, t1)
      | (Inr results, t1) \<Rightarrow> (Inr (), t1 @ summary results (arg_update a)))"

section \<open>Notions of the specification\<close>

text \<open>
  The name pattern in the words of the specification: one alphanumeric character,
  optionally followed by characters from \<^verbatim>\<open>[A-Za-z0-9._-]\<close> that end in an alphanumeric
  character.
\<close>

definition valid_name_spec :: "string \<Rightarrow> bool" where
  "valid_name_spec s =
     (case s of
        [] \<Rightarrow> False
      | c # cs \<Rightarrow> is_alnum c \<and> (cs = [] \<or> (list_all is_name_char cs \<and> is_alnum (last cs))))"

text \<open>A version string can be parsed: \<^verbatim>\<open>Version\<close> does not raise.\<close>

definition parseable :: "string \<Rightarrow> bool" where
  "parseable s = (case Version s of Inl x \<Rightarrow> False | Inr v \<Rightarrow> True)"

text \<open>
  A plain release: the version \<^verbatim>\<open>N.N. ... .N\<close> and its text. The order of PEP 440
  compares the segments of two plain releases as numbers, the first difference deciding,
  after the zeros at the end are dropped.
\<close>

definition plain :: "nat list \<Rightarrow> version" where
  "plain ns = \<lparr>epoch = 0, release = ns, pre = None, post = None, dev = None, local = None\<rparr>"

definition dots :: "nat list \<Rightarrow> string" where
  "dots ns = concat (map (\<lambda>n. CHR ''.'' # str_nat n) ns)"

fun dotted :: "nat list \<Rightarrow> string" where
  "dotted [] = []"
| "dotted (n # ns) = str_nat n @ dots ns"

definition strip_zeros :: "nat list \<Rightarrow> nat list" where
  "strip_zeros ns = rev (dropWhile (\<lambda>x. x = 0) (rev ns))"

text \<open>A network call was made: a URL was opened.\<close>

definition network_called :: "event list \<Rightarrow> bool" where
  "network_called t = list_ex (\<lambda>ev. case ev of UrlOpen u n \<Rightarrow> True | _ \<Rightarrow> False) t"

text \<open>The upgrade action was invoked for a package.\<close>

definition upgrade_invoked :: "env \<Rightarrow> string \<Rightarrow> event list \<Rightarrow> bool" where
  "upgrade_invoked e pkg t =
     list_ex (\<lambda>ev. case ev of Run argv rc \<Rightarrow> argv = pip_upgrade_argv e pkg | _ \<Rightarrow> False) t"

text \<open>An error message was printed: a line that starts with \<^verbatim>\<open>Error\<close>.\<close>

definition error_printed :: "event list \<Rightarrow> bool" where
  "error_printed t =
     list_ex (\<lambda>ev. case ev of Print s \<Rightarrow> startswith s ''Error'' | _ \<Rightarrow> False) t"

text \<open>
  A world for the examples: \<^verbatim>\<open>pip show\<close> ends with the given return code and output,
  \<^verbatim>\<open>pip install\<close> with the given return code, every URL gives the same body or
  exception, \<^verbatim>\<open>json.loads\<close> the same value or exception, and every file the same lines
  or exception.
\<close>

definition world :: "int \<times> string \<Rightarrow> int \<Rightarrow> exn + string \<Rightarrow> exn + json \<Rightarrow> exn + string list \<Rightarrow> env" where
  "world shown upgrade_rc body decoded lines = \<lparr>
     sys_executable = ''python3'',
     subprocess_run = (\<lambda>t argv. if take 4 argv = [''python3'', ''-m'', ''pip'', ''show'']
                                 then shown else (upgrade_rc, [])),
     urlopen = (\<lambda>t url n. body),
     json_loads = (\<lambda>s. decoded),
     open_file = (\<lambda>t f. lines) \<rparr>"

text \<open>The output of \<^verbatim>\<open>pip show\<close> for an installed package with the given version.\<close>

definition pip_output :: "string \<Rightarrow> string" where
  "pip_output v = ''Name: demo'' @ [LF] @ ''Version: '' @ v @ [LF] @ ''Summary: a package'' @ [LF]"

text \<open>The reply of the index for a package with the given latest version.\<close>

definition index_reply :: "string \<Rightarrow> json" where
  "index_reply v = JObj [(''info'', JObj [(''name'', JStr ''demo''), (''version'', JStr v)])]"

text \<open>A world where the package is installed with version \<open>i\<close>, the index knows the
  latest version \<open>l\<close>, and an upgrade succeeds; and a world where \<^verbatim>\<open>pip show\<close> fails.\<close>

definition demo_world :: "string \<Rightarrow> string \<Rightarrow> env" where
  "demo_world i l =
     world (0, pip_output i) 0 (Inr ''{}'') (Inr (index_reply l)) (Inl FileNotFoundError)"

definition absent_world :: env where
  "absent_world =
     world (1, []) 0 (Inr ''{}'') (Inr (index_reply ''1.0'')) (Inl FileNotFoundError)"

text \<open>A world where the requirements file holds the given lines, every package is
  installed with version 1.2.0 and the index knows version 1.3.0.\<close>

definition manifest_world :: "string list \<Rightarrow> env" where
  "manifest_world lines =
     world (0, pip_output ''1.2.0'') 0 (Inr ''{}'') (Inr (index_reply ''1.3.0'')) (Inr lines)"

text \<open>The states in which a greedy repetition of a character class can end, the longest
  repetition first.\<close>

fun star_cls :: "(char \<Rightarrow> bool) \<Rightarrow> string \<Rightarrow> string list" where
  "star_cls p [] = [[]]"
| "star_cls p (c # cs) = (if p c then star_cls p cs @ [c # cs] else [c # cs])"

text \<open>The names of the groups of a pattern.\<close>

primrec grp_names :: "re \<Rightarrow> string set" where
  "grp_names (Cls p) = {}"
| "grp_names Eps = {}"
| "grp_names Eos = {}"
| "grp_names (Seq a b) = grp_names a \<union> grp_names b"
| "grp_names (Alt a b) = grp_names a \<union> grp_names b"
| "grp_names (Opt a) = grp_names a"
| "grp_names (Star a) = grp_names a"
| "grp_names (LazyStar a) = grp_names a"
| "grp_names (Grp n a) = insert n (grp_names a)"

section \<open>Properties of the numerals\<close>

lemma digit_val_char: "d < 10 \<Longrightarrow> digit_val (digit_char d) = d"
proof -
  assume "d < 10"
  then have "d \<in> {0, 1, 2, 3, 4, 5, 6, 7, 8, 9}" by auto
  then show ?thesis by (auto simp: digit_val_def digit_char_def)
qed

lemma int_of_digits_snoc: "int_of_digits (s @ [c]) = 10 * int_of_digits s + digit_val c"
  by (simp add: int_of_digits_def)

lemma int_of_digits_str_nat: "int_of_digits (str_nat n) = n"
proof (induction n rule: str_nat.induct)
  case (1 n)
  show ?case
  proof (cases "n < 10")
    case True
    then show ?thesis
      by (subst str_nat.simps) (simp add: int_of_digits_def digit_val_char)
  next
    case False
    with 1 have "int_of_digits (str_nat (n div 10)) = n div 10" by blast
    with False show ?thesis
      by (subst str_nat.simps) (simp add: int_of_digits_snoc digit_val_char)
  qed
qed

section \<open>Properties of the patterns\<close>

lemma star_iter_cls:
  "length s \<le> n \<Longrightarrow> star_iter (rmatch (Cls p)) n (s, g) = map (\<lambda>r. (r, g)) (star_cls p s)"
proof (induction n arbitrary: s)
  case 0
  then show ?case by simp
next
  case (Suc n)
  show ?case
  proof (cases s)
    case Nil
    then show ?thesis by simp
  next
    case (Cons c cs)
    with Suc.prems have "length cs \<le> n" by simp
    from Suc.IH [OF this] Cons show ?thesis by simp
  qed
qed

lemma rmatch_star_cls:
  "rmatch (Star (Cls p)) (s, g) = map (\<lambda>r. (r, g)) (star_cls p s)"
  by (simp add: star_iter_cls)

lemma star_cls_stop:
  "s = [] \<or> \<not> p (hd s) \<Longrightarrow> star_cls p s = [s]"
  by (cases s) auto

lemma star_cls_suffix:
  "r \<in> set (star_cls p s) \<Longrightarrow> \<exists>m. s = m @ r \<and> list_all p m"
proof (induction s)
  case Nil
  then show ?case by simp
next
  case (Cons c cs)
  show ?case
  proof (cases "r = c # cs")
    case True
    then show ?thesis by simp
  next
    case False
    with Cons.prems have pc: "p c" and "r \<in> set (star_cls p cs)"
      by (auto split: if_splits)
    then obtain m where "cs = m @ r" "list_all p m" using Cons.IH by blast
    with pc have "c # cs = (c # m) @ r \<and> list_all p (c # m)" by simp
    then show ?thesis by blast
  qed
qed

lemma star_then_cls_first:
  assumes "list_all p m" and "p d" and "q d"
    and "rest = [] \<or> \<not> p (hd rest)" and "rest = [] \<or> \<not> q (hd rest)"
  shows "\<exists>X. concat (map (\<lambda>r. rmatch (Cls q) (r, g)) (star_cls p (m @ d # rest)))
           = (rest, g) # X"
  using assms(1)
proof (induction m)
  case Nil
  have "star_cls p rest = [rest]" using assms(4) by (rule star_cls_stop)
  moreover have "rmatch (Cls q) (rest, g) = []" using assms(5) by (cases rest) auto
  ultimately show ?case using assms(2,3) by simp
next
  case (Cons a m)
  then obtain X where X:
    "concat (map (\<lambda>r. rmatch (Cls q) (r, g)) (star_cls p (m @ d # rest))) = (rest, g) # X"
    by auto
  from Cons.prems have "star_cls p ((a # m) @ d # rest)
      = star_cls p (m @ d # rest) @ [a # m @ d # rest]" by simp
  then have "concat (map (\<lambda>r. rmatch (Cls q) (r, g)) (star_cls p ((a # m) @ d # rest)))
      = (rest, g) # (X @ rmatch (Cls q) (a # m @ d # rest, g))"
    using X by (simp del: rmatch.simps)
  then show ?case by blast
qed


lemma star_iter_keeps:
  assumes f: "\<And>st st'. st' \<in> set (f st) \<Longrightarrow> snd st' n = snd st n"
  shows "st' \<in> set (star_iter f k st) \<Longrightarrow> snd st' n = snd st n"
proof (induction k arbitrary: st st')
  case 0
  then show ?case by simp
next
  case (Suc k)
  from Suc.prems consider "st' = st"
    | st1 where "st1 \<in> set (f st)" "st' \<in> set (star_iter f k st1)"
    by auto
  then show ?case
  proof cases
    case 1
    then show ?thesis by simp
  next
    case 2
    then show ?thesis using Suc.IH f by metis
  qed
qed

lemma lazy_iter_keeps:
  assumes f: "\<And>st st'. st' \<in> set (f st) \<Longrightarrow> snd st' n = snd st n"
  shows "st' \<in> set (lazy_iter f k st) \<Longrightarrow> snd st' n = snd st n"
proof (induction k arbitrary: st st')
  case 0
  then show ?case by simp
next
  case (Suc k)
  from Suc.prems consider "st' = st"
    | st1 where "st1 \<in> set (f st)" "st' \<in> set (lazy_iter f k st1)"
    by auto
  then show ?case
  proof cases
    case 1
    then show ?thesis by simp
  next
    case 2
    then show ?thesis using Suc.IH f by metis
  qed
qed

lemma rmatch_keeps:
  "st' \<in> set (rmatch r st) \<Longrightarrow> n \<notin> grp_names r \<Longrightarrow> snd st' n = snd st n"
proof (induction r arbitrary: st st')
  case (Cls p)
  then show ?case by (auto split: list.splits if_splits)
next
  case Eps
  then show ?case by simp
next
  case Eos
  then show ?case by (auto split: if_splits)
next
  case (Seq a b)
  from Seq.prems(1) obtain st1 where "st1 \<in> set (rmatch a st)" "st' \<in> set (rmatch b st1)"
    by auto
  moreover from Seq.prems(2) have "n \<notin> grp_names a" "n \<notin> grp_names b" by simp_all
  ultimately show ?case using Seq.IH by metis
next
  case (Alt a b)
  from Alt.prems(2) have "n \<notin> grp_names a" "n \<notin> grp_names b" by simp_all
  moreover from Alt.prems(1) have "st' \<in> set (rmatch a st) \<or> st' \<in> set (rmatch b st)"
    by simp
  ultimately show ?case using Alt.IH by blast
next
  case (Opt a)
  from Opt.prems(2) have "n \<notin> grp_names a" by simp
  moreover from Opt.prems(1) have "st' \<in> set (rmatch a st) \<or> st' = st" by auto
  ultimately show ?case using Opt.IH by blast
next
  case (Star a)
  from Star.prems(2) have "\<And>st st'. st' \<in> set (rmatch a st) \<Longrightarrow> snd st' n = snd st n"
    using Star.IH by simp
  from star_iter_keeps [of "rmatch a" n, OF this] Star.prems(1) show ?case by simp
next
  case (LazyStar a)
  from LazyStar.prems(2) have "\<And>st st'. st' \<in> set (rmatch a st) \<Longrightarrow> snd st' n = snd st n"
    using LazyStar.IH by simp
  from lazy_iter_keeps [of "rmatch a" n, OF this] LazyStar.prems(1) show ?case by simp
next
  case (Grp k a)
  from Grp.prems(2) have nk: "n \<noteq> k" and na: "n \<notin> grp_names a" by simp_all
  from Grp.prems(1) obtain st1 where st1: "st1 \<in> set (rmatch a st)"
    and eq: "st' = (fst st1, (snd st1)(k \<mapsto> take (length (fst st) - length (fst st1)) (fst st)))"
    by auto
  from eq nk have "snd st' n = snd st1 n" by simp
  also have "\<dots> = snd st n" using Grp.IH [OF st1 na] .
  finally show ?case .
qed

lemma star_iter_nonempty: "star_iter f k st \<noteq> []"
  by (cases k) simp_all

lemma not_name_char_LF: "\<not> is_name_char LF"
  by (simp add: is_name_char_def is_alnum_def LF_def)

lemma alnum_name_char: "is_alnum c \<Longrightarrow> is_name_char c"
  by (simp add: is_name_char_def)

lemma seq_first:
  "rmatch a st = st1 # X \<Longrightarrow> rmatch b st1 = st2 # Y \<Longrightarrow> \<exists>Z. rmatch (Seq a b) st = st2 # Z"
  by simp

lemma seq_cls_star:
  "rmatch (Seq (Star (Cls p)) b) (s, g) = concat (map (\<lambda>r. rmatch b (r, g)) (star_cls p s))"
  by (simp add: star_iter_cls comp_def del: rmatch.simps(1))

lemma opt_first: "rmatch a st = st1 # X \<Longrightarrow> \<exists>Z. rmatch (Opt a) st = st1 # Z"
  by simp

lemma opt_empty: "rmatch a st = [] \<Longrightarrow> rmatch (Opt a) st = [st]"
  by simp

lemma grp_first:
  "rmatch a st = st1 # X \<Longrightarrow>
   \<exists>Z. rmatch (Grp n a) st
     = (fst st1, (snd st1)(n \<mapsto> take (length (fst st) - length (fst st1)) (fst st))) # Z"
  by simp

lemma grp_empty: "rmatch a st = [] \<Longrightarrow> rmatch (Grp n a) st = []"
  by simp

lemma cls_fail: "s = [] \<or> \<not> p (hd s) \<Longrightarrow> rmatch (Cls p) (s, g) = []"
  by (cases s) auto

lemma cls_step: "p c \<Longrightarrow> rmatch (Cls p) (c # s, g) = [(s, g)]"
  by simp

text \<open>The optional second part of a name.\<close>

lemma name_tail_first:
  assumes cs: "cs = [] \<or> (list_all is_name_char cs \<and> is_alnum (last cs))"
    and rest: "rest = [] \<or> \<not> is_name_char (hd rest)"
  shows "\<exists>g' X. rmatch (Opt (Grp k (Seq (Star (Cls is_name_char)) (Cls is_alnum)))) (cs @ rest, g)
            = (rest, g') # X \<and> (\<forall>n. n \<noteq> k \<longrightarrow> g' n = g n)
            \<and> (cs \<noteq> [] \<longrightarrow> g' k = Some cs)"
proof (cases "cs = []")
  case True
  have r: "rest = [] \<or> \<not> is_alnum (hd rest)" using rest alnum_name_char by blast
  have "star_cls is_name_char rest = [rest]" using rest by (rule star_cls_stop)
  moreover have "rmatch (Cls is_alnum) (rest, g) = []" using r by (rule cls_fail)
  ultimately have "rmatch (Seq (Star (Cls is_name_char)) (Cls is_alnum)) (rest, g) = []"
    by (simp only: seq_cls_star) simp
  then have "rmatch (Opt (Grp k (Seq (Star (Cls is_name_char)) (Cls is_alnum)))) (rest, g)
      = [(rest, g)]"
    by (intro opt_empty grp_empty)
  with True show ?thesis by (simp del: rmatch.simps)
next
  case False
  with cs have all: "list_all is_name_char cs" and l: "is_alnum (last cs)" by auto
  from False obtain m d where md: "cs = m @ [d]" by (metis rev_exhaust)
  with all l have m: "list_all is_name_char m" and d: "is_alnum d" by auto
  have r: "rest = [] \<or> \<not> is_alnum (hd rest)" using rest alnum_name_char by blast
  from star_then_cls_first [OF m alnum_name_char [OF d] d rest r, of g]
  obtain X where X: "concat (map (\<lambda>r. rmatch (Cls is_alnum) (r, g))
       (star_cls is_name_char (m @ d # rest))) = (rest, g) # X" by blast
  have "rmatch (Seq (Star (Cls is_name_char)) (Cls is_alnum)) (cs @ rest, g) = (rest, g) # X"
    using X md by (simp only: seq_cls_star) simp
  from grp_first [OF this, of k] obtain Z where
    "rmatch (Grp k (Seq (Star (Cls is_name_char)) (Cls is_alnum))) (cs @ rest, g)
      = (rest, g(k \<mapsto> cs)) # Z" by (auto simp del: rmatch.simps)
  from opt_first [OF this] show ?thesis by (auto simp del: rmatch.simps)
qed

text \<open>A name, then something that is not part of a name.\<close>

lemma name_first:
  assumes n: "valid_name_spec n" and rest: "rest = [] \<or> \<not> is_name_char (hd rest)"
  shows "\<exists>g' X. rmatch (Grp ''1'' (Seq (Cls is_alnum)
                      (Opt (Grp ''2'' (Seq (Star (Cls is_name_char)) (Cls is_alnum))))))
                  (n @ rest, g) = (rest, g') # X \<and> g' ''1'' = Some n"
proof -
  from n obtain c cs where ncs: "n = c # cs" and c: "is_alnum c"
    and cs: "cs = [] \<or> (list_all is_name_char cs \<and> is_alnum (last cs))"
    by (auto simp: valid_name_spec_def split: list.splits)
  have 1: "rmatch (Cls is_alnum) (n @ rest, g) = (cs @ rest, g) # []"
    using ncs c by (simp add: cls_step del: rmatch.simps)
  from name_tail_first [OF cs rest, of "''2''" g] obtain g' X where
    2: "rmatch (Opt (Grp ''2'' (Seq (Star (Cls is_name_char)) (Cls is_alnum)))) (cs @ rest, g)
         = (rest, g') # X" by blast
  from seq_first [OF 1 2] obtain Z where
    "rmatch (Seq (Cls is_alnum) (Opt (Grp ''2'' (Seq (Star (Cls is_name_char)) (Cls is_alnum)))))
       (n @ rest, g) = (rest, g') # Z" by blast
  from grp_first [OF this, of "''1''"] show ?thesis by (auto simp del: rmatch.simps)
qed

lemma requirement_tail:
  "\<exists>st' X. rmatch (Seq (Opt (Grp ''3'' a)) (Star b)) st = st' # X"
proof -
  have "rmatch (Opt (Grp ''3'' a)) st \<noteq> []" by (simp only: rmatch.simps(6)) simp
  then obtain st1 Y where 1: "rmatch (Opt (Grp ''3'' a)) st = st1 # Y"
    by (cases "rmatch (Opt (Grp ''3'' a)) st") auto
  have "rmatch (Star b) st1 \<noteq> []" by (simp only: rmatch.simps(7) star_iter_nonempty) simp
  then obtain st2 Z where 2: "rmatch (Star b) st1 = st2 # Z"
    by (cases "rmatch (Star b) st1") auto
  from seq_first [OF 1 2] show ?thesis by blast
qed

lemma requirement_line_name:
  assumes n: "valid_name_spec n" and rest: "rest = [] \<or> \<not> is_name_char (hd rest)"
  shows "\<exists>g. re_match REQUIREMENT_LINE (n @ rest) = Some g \<and> g ''1'' = Some n"
proof -
  let ?tail = "Seq (Opt (Grp ''3'' (Seq (chr CHR ''['')
                              (Seq (LazyStar (Cls (\<lambda>c. c \<noteq> LF))) (chr CHR '']'')))))
          (Star (Cls (\<lambda>c. c \<noteq> CHR '';'')))"
  from name_first [OF n rest, of Map.empty] obtain g1 X where
    1: "rmatch (Grp ''1'' (Seq (Cls is_alnum)
                      (Opt (Grp ''2'' (Seq (Star (Cls is_name_char)) (Cls is_alnum))))))
                  (n @ rest, Map.empty) = (rest, g1) # X" and g1: "g1 ''1'' = Some n" by blast
  from requirement_tail obtain st2 Y where 2: "rmatch ?tail (rest, g1) = st2 # Y" by blast
  have notin: "''1'' \<notin> grp_names ?tail" by (simp add: chr_def)
  have "st2 \<in> set (rmatch ?tail (rest, g1))" by (simp only: 2) simp
  from rmatch_keeps [OF this notin] have keep: "snd st2 ''1'' = g1 ''1''" by simp
  from seq_first [OF 1 2] have "\<exists>Z. rmatch REQUIREMENT_LINE (n @ rest, Map.empty) = st2 # Z"
    by (simp only: REQUIREMENT_LINE_def)
  then obtain Z where "rmatch REQUIREMENT_LINE (n @ rest, Map.empty) = st2 # Z" ..
  then show ?thesis using g1 keep by (simp add: re_match_def del: rmatch.simps)
qed

lemma requirement_line_no_match:
  "s = [] \<or> \<not> is_alnum (hd s) \<Longrightarrow> re_match REQUIREMENT_LINE s = None"
  by (cases s) (auto simp: re_match_def REQUIREMENT_LINE_def)

lemma eos_step: "rest = [] \<or> rest = [LF] \<Longrightarrow> rmatch Eos (rest, g) = [(rest, g)]"
  by auto

lemma seq_cls_head:
  "rmatch (Seq (Cls p) b) (s, g) = (case s of [] \<Rightarrow> [] | c # cs \<Rightarrow> if p c then rmatch b (cs, g) else [])"
  by (cases s) simp_all

lemma valid_package_name_accepts:
  assumes n: "valid_name_spec n" and rest: "rest = [] \<or> rest = [LF]"
  shows "re_match VALID_PACKAGE_NAME (n @ rest) \<noteq> None"
proof -
  from n obtain c cs where ncs: "n = c # cs" and c: "is_alnum c"
    and cs: "cs = [] \<or> (list_all is_name_char cs \<and> is_alnum (last cs))"
    by (auto simp: valid_name_spec_def split: list.splits)
  have r: "rest = [] \<or> \<not> is_name_char (hd rest)" using rest not_name_char_LF by auto
  have 1: "rmatch (Cls is_alnum) (n @ rest, Map.empty) = (cs @ rest, Map.empty) # []"
    using ncs c by (simp add: cls_step del: rmatch.simps)
  from name_tail_first [OF cs r, of "''1''" Map.empty] obtain g' X where
    2: "rmatch (Opt (Grp ''1'' (Seq (Star (Cls is_name_char)) (Cls is_alnum)))) (cs @ rest, Map.empty)
         = (rest, g') # X" by blast
  have 3: "rmatch Eos (rest, g') = (rest, g') # []" using rest by (rule eos_step)
  from seq_first [OF 2 3] obtain Y where
    "rmatch (Seq (Opt (Grp ''1'' (Seq (Star (Cls is_name_char)) (Cls is_alnum)))) Eos)
       (cs @ rest, Map.empty) = (rest, g') # Y" by blast
  from seq_first [OF 1 this] have "\<exists>Z. rmatch VALID_PACKAGE_NAME (n @ rest, Map.empty) = (rest, g') # Z"
    by (simp only: VALID_PACKAGE_NAME_def)
  then show ?thesis by (auto simp: re_match_def simp del: rmatch.simps)
qed

lemma valid_package_name_only:
  assumes "re_match VALID_PACKAGE_NAME s \<noteq> None"
  shows "\<exists>n rest. s = n @ rest \<and> valid_name_spec n \<and> (rest = [] \<or> rest = [LF])"
proof -
  let ?g = "Map.empty :: groups"
  let ?body = "Seq (Star (Cls is_name_char)) (Cls is_alnum)"
  from assms have "rmatch VALID_PACKAGE_NAME (s, ?g) \<noteq> []"
    by (auto simp: re_match_def split: list.splits)
  then have ne: "(case s of [] \<Rightarrow> []
        | c # cs \<Rightarrow> if is_alnum c then rmatch (Seq (Opt (Grp ''1'' ?body)) Eos) (cs, ?g) else []) \<noteq> []"
    unfolding VALID_PACKAGE_NAME_def seq_cls_head .
  then obtain c cs where s: "s = c # cs" and c: "is_alnum c"
    by (cases s) (auto split: if_splits)
  with ne have "rmatch (Seq (Opt (Grp ''1'' ?body)) Eos) (cs, ?g) \<noteq> []"
    by (simp del: rmatch.simps)
  then obtain st1 where st1: "st1 \<in> set (rmatch (Opt (Grp ''1'' ?body)) (cs, ?g))"
    and e: "rmatch Eos st1 \<noteq> []"
    by (auto simp del: rmatch.simps(1,3,6,7,9))
  from e have end1: "fst st1 = [] \<or> fst st1 = [LF]" by (auto split: if_splits)
  from st1 consider "st1 = (cs, ?g)"
    | st0 where "st0 \<in> set (rmatch ?body (cs, ?g))" "fst st1 = fst st0"
    by (auto simp del: rmatch.simps(1,4,7))
  then show ?thesis
  proof cases
    case 1
    with end1 have "cs = [] \<or> cs = [LF]" by simp
    moreover have "valid_name_spec [c]" using c by (simp add: valid_name_spec_def)
    ultimately show ?thesis using s by (metis append_Cons append_Nil)
  next
    case 2
    from 2(1) obtain r where r: "r \<in> set (star_cls is_name_char cs)"
      and st0: "st0 \<in> set (rmatch (Cls is_alnum) (r, ?g))"
      by (auto simp: seq_cls_star simp del: rmatch.simps)
    from st0 obtain d where d: "r = d # fst st0" "is_alnum d"
      by (cases r) (auto split: if_splits)
    from star_cls_suffix [OF r] obtain m where m: "cs = m @ r" "list_all is_name_char m" by blast
    have "valid_name_spec (c # m @ [d])"
      using c m(2) d(2) by (simp add: valid_name_spec_def alnum_name_char)
    moreover have "s = (c # m @ [d]) @ fst st1" using s m(1) d(1) 2(2) by simp
    ultimately show ?thesis using end1 by blast
  qed
qed

lemma valid_package_name_iff:
  "re_match VALID_PACKAGE_NAME s \<noteq> None \<longleftrightarrow>
     valid_name_spec s \<or> (\<exists>n. s = n @ [LF] \<and> valid_name_spec n)"
proof
  assume "re_match VALID_PACKAGE_NAME s \<noteq> None"
  from valid_package_name_only [OF this] show
    "valid_name_spec s \<or> (\<exists>n. s = n @ [LF] \<and> valid_name_spec n)" by auto
next
  assume "valid_name_spec s \<or> (\<exists>n. s = n @ [LF] \<and> valid_name_spec n)"
  then show "re_match VALID_PACKAGE_NAME s \<noteq> None"
    using valid_package_name_accepts [of s "[]"] valid_package_name_accepts [of _ "[LF]"]
    by auto
qed

section \<open>Plain releases\<close>

lemma tuple_lt_same: "\<not> tuple_lt lt xs xs"
  by (induction xs) simp_all

lemma plain_version_lt:
  "version_lt (plain ms) (plain ns) = tuple_lt (<) (strip_zeros ms) (strip_zeros ns)"
  by (simp add: version_lt_def key_lt_def cmpkey_def plain_def strip_zeros_def tuple_lt_same)

lemma is_digit_digit_char: "d < 10 \<Longrightarrow> is_digit (digit_char d)"
proof -
  assume "d < 10"
  then have "d \<in> {0, 1, 2, 3, 4, 5, 6, 7, 8, 9}" by auto
  then show ?thesis by (auto simp: is_digit_def digit_char_def)
qed

lemma str_nat_digits: "str_nat n \<noteq> [] \<and> list_all is_digit (str_nat n)"
proof (induction n rule: str_nat.induct)
  case (1 n)
  show ?case
  proof (cases "n < 10")
    case True
    then show ?thesis by (subst (1 2) str_nat.simps) (simp add: is_digit_digit_char)
  next
    case False
    with 1 have "list_all is_digit (str_nat (n div 10))" by blast
    with False show ?thesis by (subst (1 2) str_nat.simps) (simp add: is_digit_digit_char)
  qed
qed

lemma digit_not_space: "is_digit c \<Longrightarrow> \<not> is_space c"
  by (auto simp: is_digit_def is_space_def)

lemma digit_not_v: "is_digit c \<Longrightarrow> lower_char c \<noteq> CHR ''v''"
  by (auto simp: is_digit_def lower_char_def)

lemma star_cls_first:
  "list_all p m \<Longrightarrow> rest = [] \<or> \<not> p (hd rest) \<Longrightarrow> \<exists>X. star_cls p (m @ rest) = rest # X"
proof (induction m)
  case Nil
  then show ?case by (simp add: star_cls_stop)
next
  case (Cons a m)
  then obtain X where "star_cls p (m @ rest) = rest # X" by auto
  with Cons.prems(1) show ?case by simp
qed

lemma digits1_first:
  assumes "ds \<noteq> []" and "list_all is_digit ds" and "rest = [] \<or> \<not> is_digit (hd rest)"
  shows "\<exists>X. rmatch digits1 (ds @ rest, g) = (rest, g) # X"
proof -
  from assms(1,2) obtain c cs where ds: "ds = c # cs" and c: "is_digit c" and cs: "list_all is_digit cs"
    by (cases ds) auto
  have 1: "rmatch (Cls is_digit) (ds @ rest, g) = (cs @ rest, g) # []"
    using ds c by (simp add: cls_step del: rmatch.simps)
  from star_cls_first [OF cs assms(3)] obtain X where "star_cls is_digit (cs @ rest) = rest # X" ..
  then have 2: "rmatch (Star (Cls is_digit)) (cs @ rest, g) = (rest, g) # map (\<lambda>r. (r, g)) X"
    by (simp add: rmatch_star_cls del: rmatch.simps)
  from seq_first [OF 1 2] show ?thesis by (simp only: digits1_def Plus_def)
qed

lemma dots_head: "dots ns = [] \<or> \<not> is_digit (hd (dots ns))"
  by (cases ns) (simp_all add: dots_def is_digit_def)

lemma dots_Cons: "dots (n # ns) = CHR ''.'' # str_nat n @ dots ns"
  by (simp add: dots_def)

lemma dot_digits_step:
  "\<exists>X. rmatch (Seq (chr CHR ''.'') digits1) (dots (n # ns), g) = (dots ns, g) # X"
proof -
  have 1: "rmatch (chr CHR ''.'') (dots (n # ns), g) = (str_nat n @ dots ns, g) # []"
    by (simp add: chr_def dots_Cons)
  from digits1_first [of "str_nat n" "dots ns" g] str_nat_digits [of n] dots_head [of ns]
  obtain X where 2: "rmatch digits1 (str_nat n @ dots ns, g) = (dots ns, g) # X" by blast
  from seq_first [OF 1 2] show ?thesis .
qed

lemma release_star_first:
  "length (dots ns) \<le> k \<Longrightarrow>
   \<exists>X. star_iter (rmatch (Seq (chr CHR ''.'') digits1)) k (dots ns, g) = ([], g) # X"
proof (induction ns arbitrary: k)
  case Nil
  have "rmatch (Seq (chr CHR ''.'') digits1) ([], g) = []"
    by (simp add: chr_def)
  then show ?case by (cases k) (simp_all add: dots_def del: rmatch.simps)
next
  case (Cons n ns)
  from Cons.prems obtain k' where k: "k = Suc k'" and le: "length (dots ns) \<le> k'"
    by (cases k) (auto simp: dots_Cons)
  from dot_digits_step obtain X where
    X: "rmatch (Seq (chr CHR ''.'') digits1) (dots (n # ns), g) = (dots ns, g) # X" by blast
  from Cons.IH [OF le] obtain Y where
    Y: "star_iter (rmatch (Seq (chr CHR ''.'') digits1)) k' (dots ns, g) = ([], g) # Y" by blast
  have "length (dots ns) < length (dots (n # ns))" by (simp add: dots_Cons)
  with X Y k show ?case by (simp del: rmatch.simps)
qed

lemma release_first:
  "\<exists>X. rmatch re_release (dotted (n # ns), g)
          = ([], g(''release'' \<mapsto> dotted (n # ns))) # X"
proof -
  from digits1_first [of "str_nat n" "dots ns" g] str_nat_digits [of n] dots_head [of ns]
  obtain X where 1: "rmatch digits1 (str_nat n @ dots ns, g) = (dots ns, g) # X" by blast
  from release_star_first [of ns "length (dots ns)" g] obtain Y where
    2: "rmatch (Star (Seq (chr CHR ''.'') digits1)) (dots ns, g) = ([], g) # Y"
    by (auto simp del: rmatch.simps(1,2,3,4,5,6,8,9))
  from seq_first [OF 1 2] obtain Z where
    "rmatch (Seq digits1 (Star (Seq (chr CHR ''.'') digits1))) (str_nat n @ dots ns, g) = ([], g) # Z"
    by blast
  from grp_first [OF this, of "''release''"] show ?thesis
    by (simp add: re_release_def del: rmatch.simps)
qed


lemma star_iter_suffix:
  assumes f: "\<And>st st'. st' \<in> set (f st) \<Longrightarrow> suffix (fst st') (fst st)"
  shows "st' \<in> set (star_iter f k st) \<Longrightarrow> suffix (fst st') (fst st)"
proof (induction k arbitrary: st st')
  case 0
  then show ?case by simp
next
  case (Suc k)
  from Suc.prems consider "st' = st"
    | st1 where "st1 \<in> set (f st)" "st' \<in> set (star_iter f k st1)"
    by auto
  then show ?case
  proof cases
    case 1
    then show ?thesis by simp
  next
    case 2
    from 2(2) have "suffix (fst st') (fst st1)" by (rule Suc.IH)
    moreover from 2(1) have "suffix (fst st1) (fst st)" by (rule f)
    ultimately show ?thesis by (rule suffix_order.trans)
  qed
qed

lemma lazy_iter_suffix:
  assumes f: "\<And>st st'. st' \<in> set (f st) \<Longrightarrow> suffix (fst st') (fst st)"
  shows "st' \<in> set (lazy_iter f k st) \<Longrightarrow> suffix (fst st') (fst st)"
proof (induction k arbitrary: st st')
  case 0
  then show ?case by simp
next
  case (Suc k)
  from Suc.prems consider "st' = st"
    | st1 where "st1 \<in> set (f st)" "st' \<in> set (lazy_iter f k st1)"
    by auto
  then show ?case
  proof cases
    case 1
    then show ?thesis by simp
  next
    case 2
    from 2(2) have "suffix (fst st') (fst st1)" by (rule Suc.IH)
    moreover from 2(1) have "suffix (fst st1) (fst st)" by (rule f)
    ultimately show ?thesis by (rule suffix_order.trans)
  qed
qed

text \<open>A match ends in a suffix of the input.\<close>

lemma rmatch_suffix: "st' \<in> set (rmatch r st) \<Longrightarrow> suffix (fst st') (fst st)"
proof (induction r arbitrary: st st')
  case (Cls p)
  then show ?case by (cases "fst st") (auto simp: suffix_Cons split: if_splits)
next
  case Eps
  then show ?case by simp
next
  case Eos
  then show ?case by (auto split: if_splits)
next
  case (Seq a b)
  from Seq.prems obtain st1 where 1: "st1 \<in> set (rmatch a st)" and 2: "st' \<in> set (rmatch b st1)"
    by auto
  from 2 have "suffix (fst st') (fst st1)" by (rule Seq.IH(2))
  moreover from 1 have "suffix (fst st1) (fst st)" by (rule Seq.IH(1))
  ultimately show ?case by (rule suffix_order.trans)
next
  case (Alt a b)
  from Alt.prems have "st' \<in> set (rmatch a st) \<or> st' \<in> set (rmatch b st)" by simp
  then show ?case
  proof
    assume "st' \<in> set (rmatch a st)"
    then show ?thesis by (rule Alt.IH(1))
  next
    assume "st' \<in> set (rmatch b st)"
    then show ?thesis by (rule Alt.IH(2))
  qed
next
  case (Opt a)
  from Opt.prems have "st' \<in> set (rmatch a st) \<or> st' = st" by auto
  then show ?case
  proof
    assume "st' \<in> set (rmatch a st)"
    then show ?thesis by (rule Opt.IH)
  next
    assume "st' = st"
    then show ?thesis by simp
  qed
next
  case (Star a)
  from star_iter_suffix [of "rmatch a", OF Star.IH] Star.prems show ?case by simp
next
  case (LazyStar a)
  from lazy_iter_suffix [of "rmatch a", OF LazyStar.IH] LazyStar.prems show ?case by simp
next
  case (Grp k a)
  from Grp.prems obtain st1 where 1: "st1 \<in> set (rmatch a st)" and 2: "fst st' = fst st1"
    by auto
  from 1 have "suffix (fst st1) (fst st)" by (rule Grp.IH)
  with 2 show ?case by simp
qed

lemma seq_chr_absent:
  assumes "c \<notin> set s"
  shows "rmatch (Seq a (chr c)) (s, g) = []"
proof -
  have "rmatch (chr c) st1 = []" if "st1 \<in> set (rmatch a (s, g))" for st1
  proof -
    from rmatch_suffix [OF that] have "set (fst st1) \<subseteq> set s" by (simp add: set_mono_suffix)
    with assms have "fst st1 = [] \<or> hd (fst st1) \<noteq> c" by (cases "fst st1") auto
    then have "rmatch (Cls (\<lambda>x. x = c)) (fst st1, snd st1) = []" by (rule cls_fail)
    then show ?thesis by (simp add: chr_def del: rmatch.simps)
  qed
  then have "concat (map (rmatch (chr c)) (rmatch a (s, g))) = []"
    by (simp del: rmatch.simps)
  then show ?thesis by (simp only: rmatch.simps(4))
qed

lemma digits_or_dots_mono: "list_all is_digit ds \<Longrightarrow> list_all (\<lambda>c. is_digit c \<or> c = CHR ''.'') ds"
  by (induction ds) simp_all

lemma dots_class: "list_all (\<lambda>c. is_digit c \<or> c = CHR ''.'') (dots ns)"
proof (induction ns)
  case Nil
  show ?case by (simp add: dots_def)
next
  case (Cons n ns)
  from str_nat_digits [of n] have "list_all (\<lambda>c. is_digit c \<or> c = CHR ''.'') (str_nat n)"
    by (simp add: digits_or_dots_mono)
  with Cons show ?case by (simp add: dots_Cons)
qed

lemma dotted_class: "list_all (\<lambda>c. is_digit c \<or> c = CHR ''.'') (dotted (n # ns))"
  using str_nat_digits [of n] dots_class [of ns] by (simp add: digits_or_dots_mono)

lemma dotted_no_bang: "CHR ''!'' \<notin> set (dotted (n # ns))"
proof
  assume "CHR ''!'' \<in> set (dotted (n # ns))"
  with dotted_class [of n ns] have "is_digit CHR ''!'' \<or> CHR ''!'' = CHR ''.''"
    unfolding list_all_iff by blast
  then show False by (simp add: is_digit_def)
qed

lemma istr_at_end: "s \<noteq> [] \<Longrightarrow> rmatch (istr s) ([], g) = []"
  by (cases s) (simp_all add: istr_def)

lemma pre_at_end: "rmatch (Opt re_pre) ([], g) = [([], g)]"
  by (simp add: re_pre_def istr_at_end)

lemma post_at_end: "rmatch (Opt re_post) ([], g) = [([], g)]"
  by (simp add: re_post_def chr_def istr_at_end)

lemma dev_at_end: "rmatch (Opt re_dev) ([], g) = [([], g)]"
  by (simp add: re_dev_def istr_at_end)

lemma qualifiers_at_end:
  "rmatch (Seq (Opt re_pre) (Seq (Opt re_post) (Opt re_dev))) ([], g) = [([], g)]"
  by (simp add: pre_at_end post_at_end dev_at_end del: rmatch.simps(6))

lemma local_at_end: "rmatch (Opt re_local) ([], g) = [([], g)]"
  by (simp add: re_local_def chr_def)

lemma Version_regex_dotted:
  "re_match Version_regex (dotted (n # ns)) = Some [''release'' \<mapsto> dotted (n # ns)]"
proof -
  let ?s = "dotted (n # ns)"
  let ?g = "Map.empty :: groups"
  let ?g' = "[''release'' \<mapsto> ?s]"
  from str_nat_digits [of n] obtain c cs where s: "?s = c # cs" and c: "is_digit c"
    by (cases "str_nat n") auto
  have sp: "rmatch (Star (Cls is_space)) (?s, ?g) = (?s, ?g) # []"
    using s c digit_not_space by (simp add: rmatch_star_cls star_cls_stop del: rmatch.simps)
  have v: "rmatch (Opt (Cls (\<lambda>c. lower_char c = CHR ''v''))) (?s, ?g) = (?s, ?g) # []"
    using s c digit_not_v by (intro opt_empty cls_fail) simp
  have "CHR ''!'' \<notin> set ?s" by (rule dotted_no_bang)
  then have "rmatch re_epoch (?s, ?g) = []" unfolding re_epoch_def by (rule seq_chr_absent)
  then have e: "rmatch (Opt re_epoch) (?s, ?g) = (?s, ?g) # []" by (rule opt_empty)
  from release_first [of n ns ?g] obtain X where r: "rmatch re_release (?s, ?g) = ([], ?g') # X"
    by blast
  have q: "rmatch (Seq (Opt re_pre) (Seq (Opt re_post) (Opt re_dev))) ([], ?g') = ([], ?g') # []"
    by (rule qualifiers_at_end)
  have l: "rmatch (Opt re_local) ([], ?g') = ([], ?g') # []" by (rule local_at_end)
  have w: "rmatch (Seq (Star (Cls is_space)) Eos) ([], ?g') = ([], ?g') # []" by simp
  from seq_first [OF r q] obtain X1 where
    "rmatch (Seq re_release (Seq (Opt re_pre) (Seq (Opt re_post) (Opt re_dev)))) (?s, ?g)
       = ([], ?g') # X1" by blast
  from seq_first [OF e this] obtain X2 where
    "rmatch (Seq (Opt re_epoch) (Seq re_release (Seq (Opt re_pre) (Seq (Opt re_post) (Opt re_dev)))))
       (?s, ?g) = ([], ?g') # X2" by blast
  from seq_first [OF this l] obtain X3 where
    "rmatch (Seq (Seq (Opt re_epoch)
              (Seq re_release (Seq (Opt re_pre) (Seq (Opt re_post) (Opt re_dev)))))
            (Opt re_local)) (?s, ?g) = ([], ?g') # X3" by blast
  from seq_first [OF v this] obtain X4 where
    "rmatch VERSION_PATTERN (?s, ?g) = ([], ?g') # X4" unfolding VERSION_PATTERN_def by blast
  from seq_first [OF this w] obtain X5 where
    "rmatch (Seq VERSION_PATTERN (Seq (Star (Cls is_space)) Eos)) (?s, ?g) = ([], ?g') # X5"
    by blast
  from seq_first [OF sp this] obtain X6 where
    "rmatch Version_regex (?s, ?g) = ([], ?g') # X6" unfolding Version_regex_def by blast
  then show ?thesis by (simp add: re_match_def del: rmatch.simps)
qed

lemma split_from_run:
  "list_all (\<lambda>c. \<not> p c) ds \<Longrightarrow> split_from p cur (ds @ rest) = split_from p (rev ds @ cur) rest"
  by (induction ds arbitrary: cur) simp_all

lemma digits_no_dot: "list_all is_digit ds \<Longrightarrow> list_all (\<lambda>c. \<not> c = CHR ''.'') ds"
  by (induction ds) (auto simp: is_digit_def)

lemma str_nat_no_dot: "list_all (\<lambda>c. \<not> c = CHR ''.'') (str_nat n)"
  using str_nat_digits [of n] by (simp add: digits_no_dot)

lemma split_from_dots:
  "split_from (\<lambda>c. c = CHR ''.'') (rev (str_nat n)) (dots ns) = str_nat n # map str_nat ns"
proof (induction ns arbitrary: n)
  case Nil
  then show ?case by (simp add: dots_def)
next
  case (Cons m ns)
  have "split_from (\<lambda>c. c = CHR ''.'') [] (str_nat m @ dots ns)
      = split_from (\<lambda>c. c = CHR ''.'') (rev (str_nat m)) (dots ns)"
    using split_from_run [where p = "\<lambda>c. c = CHR ''.''" and ds = "str_nat m" and cur = "[]"
        and rest = "dots ns"] str_nat_no_dot [of m] by simp
  with Cons.IH [of m] show ?case by (simp add: dots_Cons)
qed

lemma split_dotted: "split_on (\<lambda>c. c = CHR ''.'') (dotted (n # ns)) = map str_nat (n # ns)"
  using split_from_run [where p = "\<lambda>c. c = CHR ''.''" and ds = "str_nat n" and cur = "[]"
      and rest = "dots ns"] str_nat_no_dot [of n] split_from_dots [of n ns]
  by (simp add: split_on_def)

text \<open>The text of a plain release parses to that release.\<close>

lemma Version_dotted: "ns \<noteq> [] \<Longrightarrow> Version (dotted ns) = Inr (plain ns)"
proof -
  assume "ns \<noteq> []"
  then obtain n ms where ns: "ns = n # ms" by (cases ns) auto
  have "map int_of_digits (map str_nat (n # ms)) = n # ms"
    by (simp add: int_of_digits_str_nat comp_def)
  then show ?thesis
    unfolding ns Version_def Version_regex_dotted
    by (simp add: split_dotted plain_def parse_letter_version_def parse_local_version_def
        del: dotted.simps)
qed

section \<open>Properties of the operations\<close>

lemma get_installed_version_trace:
  "\<exists>rc. snd (get_installed_version e pkg t) = t @ [Run (pip_show_argv e pkg) rc]"
  by (auto simp: get_installed_version_def Let_def split: prod.splits option.splits)

lemma get_latest_version_trace:
  "snd (get_latest_version e pkg t) = t \<or>
   snd (get_latest_version e pkg t) = t @ [UrlOpen (''https://pypi.org/pypi/'' @ pkg @ ''/json'') 10]"
  by (auto simp: get_latest_version_def Let_def split: sum.splits)

lemma update_package_trace:
  "update_package e pkg t = (ok, t') \<Longrightarrow> \<exists>rc. t' = t @ [Run (pip_upgrade_argv e pkg) rc] \<and> ok = (rc = 0)"
  by (auto simp: update_package_def Let_def)

lemma check_package_not_installed:
  assumes "get_installed_version e pkg t = (None, t1)"
  shows "check_package e pkg do_update t =
           (Inr \<lparr>package = pkg, installed = None, latest = JNull,
                  update_available = False, updated = False\<rparr>,
            t1 @ [Print (''  '' @ pkg @ '': not installed'')])"
  using assms by (simp add: check_package_def)

lemma show_is_not_upgrade: "pip_show_argv e pkg \<noteq> pip_upgrade_argv e pkg'"
  by (simp add: pip_show_argv_def pip_upgrade_argv_def)

lemma Version_Inl: "Version s = Inl x \<Longrightarrow> x = InvalidVersion s"
  by (auto simp: Version_def split: option.splits)

lemma updates_available_count: "updates_available results = length (filter update_available results)"
  unfolding updates_available_def by (induction results) simp_all

lemma read_packages_append: "read_packages (xs @ ys) = read_packages xs @ read_packages ys"
  by (induction xs) (simp_all add: Let_def split: option.splits)

lemma not_space_hash: "\<not> is_space CHR ''#''"
  by (simp add: is_space_def)

lemma strip_hash: "startswith l ''#'' \<Longrightarrow> startswith (strip l) ''#''"
proof -
  assume "startswith l ''#''"
  then obtain l' where l: "l = CHR ''#'' # l'" by (cases l) (auto simp: startswith_def)
  have "dropWhile is_space (rev l' @ [CHR ''#'']) = dropWhile is_space (rev l') @ [CHR ''#'']"
    using not_space_hash by (simp add: dropWhile_append3)
  with l show ?thesis by (simp add: strip_def startswith_def not_space_hash)
qed

lemma read_packages_skip:
  "strip l = [] \<or> startswith (strip l) ''#'' \<Longrightarrow> read_packages (l # ys) = read_packages ys"
  by auto

lemma read_packages_name:
  assumes "strip l = n @ rest" and "valid_name_spec n"
    and "rest = [] \<or> \<not> is_name_char (hd rest)"
  shows "read_packages (l # ys) = Some n # read_packages ys"
proof -
  from assms(2) obtain c cs where n: "n = c # cs" and c: "is_alnum c"
    by (auto simp: valid_name_spec_def split: list.splits)
  have "c \<noteq> CHR ''#''" using c by (auto simp: is_alnum_def)
  with n assms(1) have 1: "strip l \<noteq> []" "\<not> startswith (strip l) ''#''"
    by (simp_all add: startswith_def)
  from requirement_line_name [OF assms(2,3)] obtain g where
    "re_match REQUIREMENT_LINE (strip l) = Some g" "g ''1'' = Some n"
    using assms(1) by auto
  with 1 show ?thesis by simp
qed

lemma get_latest_version_rejected:
  "re_match VALID_PACKAGE_NAME pkg = None \<Longrightarrow> get_latest_version e pkg t = (Inr JNull, t)"
  by (simp add: get_latest_version_def)

text \<open>A name that fails the worded pattern and does not end in a line feed is rejected:
  the trace is unchanged, nothing was opened.\<close>

lemma get_latest_version_invalid_name:
  assumes "\<not> valid_name_spec pkg" and "pkg = [] \<or> last pkg \<noteq> LF"
  shows "get_latest_version e pkg t = (Inr JNull, t)"
proof -
  have "re_match VALID_PACKAGE_NAME pkg = None"
    using assms valid_package_name_iff [of pkg] by auto
  then show ?thesis by (rule get_latest_version_rejected)
qed

lemma get_latest_version_caught:
  assumes "re_match VALID_PACKAGE_NAME pkg \<noteq> None"
    and "urlopen e t (''https://pypi.org/pypi/'' @ pkg @ ''/json'') 10 = Inl x \<or>
         (\<exists>body. urlopen e t (''https://pypi.org/pypi/'' @ pkg @ ''/json'') 10 = Inr body
                  \<and> info_version e body = Inl x)"
    and "caught_by_latest x"
  shows "get_latest_version e pkg t
           = (Inr JNull, t @ [UrlOpen (''https://pypi.org/pypi/'' @ pkg @ ''/json'') 10])"
  using assms by (auto simp: get_latest_version_def Let_def)

lemma get_latest_version_escapes:
  assumes "re_match VALID_PACKAGE_NAME pkg \<noteq> None"
    and "urlopen e t (''https://pypi.org/pypi/'' @ pkg @ ''/json'') 10 = Inl x \<or>
         (\<exists>body. urlopen e t (''https://pypi.org/pypi/'' @ pkg @ ''/json'') 10 = Inr body
                  \<and> info_version e body = Inl x)"
    and "\<not> caught_by_latest x"
  shows "get_latest_version e pkg t
           = (Inl x, t @ [UrlOpen (''https://pypi.org/pypi/'' @ pkg @ ''/json'') 10])"
  using assms by (auto simp: get_latest_version_def Let_def)

lemma info_version_not_object:
  "json_loads e body = Inr data \<Longrightarrow> (\<forall>kvs. data \<noteq> JObj kvs) \<Longrightarrow> info_version e body = Inl TypeError"
  by (cases data) (simp_all add: info_version_def)

section \<open>The claims of the specification\<close>

text \<open>
  Claim C1. When the installed version and the latest version both parse, \<^verbatim>\<open>check_package\<close>
  returns a result whose update-available flag is true exactly when the installed
  version is smaller than the latest one in the order of PEP 440. For two plain releases
  \<^verbatim>\<open>N.N. ... .N\<close> that order compares the segments as numbers, the first difference
  deciding, zeros at the end dropped. The witness runs the two examples of the
  specification: installed 1.2.0 against latest 1.3.0 gives true, installed 1.10.0 against
  latest 1.9.0 gives false.
\<close>

theorem update_available_iff_older:
  assumes "get_installed_version e pkg t = (Some i, t1)"
    and "get_latest_version e pkg t1 = (Inr (JStr l), t2)"
    and "Version i = Inr vi" and "Version l = Inr vl"
  shows "\<exists>r t'. check_package e pkg do_update t = (Inr r, t')
           \<and> installed r = Some i \<and> latest r = JStr l
           \<and> update_available r = version_lt vi vl
           \<and> (\<forall>ms ns. ms \<noteq> [] \<and> ns \<noteq> [] \<and> i = dotted ms \<and> l = dotted ns \<longrightarrow>
                 update_available r = tuple_lt (<) (strip_zeros ms) (strip_zeros ns))"
proof -
  from assms have "\<exists>r t'. check_package e pkg do_update t = (Inr r, t')
      \<and> installed r = Some i \<and> latest r = JStr l \<and> update_available r = version_lt vi vl"
    by (simp add: check_package_def Let_def split: prod.splits)
  then obtain r t' where r: "check_package e pkg do_update t = (Inr r, t')"
    "installed r = Some i" "latest r = JStr l" "update_available r = version_lt vi vl"
    by blast
  have "update_available r = tuple_lt (<) (strip_zeros ms) (strip_zeros ns)"
    if "ms \<noteq> []" "ns \<noteq> []" "i = dotted ms" "l = dotted ns" for ms ns
  proof -
    from that assms(3,4) have "vi = plain ms" "vl = plain ns" by (simp_all add: Version_dotted)
    with r(4) show ?thesis by (simp add: plain_version_lt)
  qed
  with r show ?thesis by blast
qed

theorem update_available_iff_older_witness:
  "(\<exists>r t'. check_package (demo_world ''1.2.0'' ''1.3.0'') ''demo'' False [] = (Inr r, t')
        \<and> update_available r)
 \<and> (\<exists>r t'. check_package (demo_world ''1.10.0'' ''1.9.0'') ''demo'' False [] = (Inr r, t')
        \<and> \<not> update_available r)"
proof -
  have i1: "get_installed_version (demo_world ''1.2.0'' ''1.3.0'') ''demo'' []
      = (Some ''1.2.0'', [Run [''python3'', ''-m'', ''pip'', ''show'', ''demo''] 0])"
    by code_simp
  have l1: "get_latest_version (demo_world ''1.2.0'' ''1.3.0'') ''demo''
        [Run [''python3'', ''-m'', ''pip'', ''show'', ''demo''] 0]
      = (Inr (JStr ''1.3.0''), [Run [''python3'', ''-m'', ''pip'', ''show'', ''demo''] 0,
           UrlOpen ''https://pypi.org/pypi/demo/json'' 10])"
    by code_simp
  have i2: "get_installed_version (demo_world ''1.10.0'' ''1.9.0'') ''demo'' []
      = (Some ''1.10.0'', [Run [''python3'', ''-m'', ''pip'', ''show'', ''demo''] 0])"
    by code_simp
  have l2: "get_latest_version (demo_world ''1.10.0'' ''1.9.0'') ''demo''
        [Run [''python3'', ''-m'', ''pip'', ''show'', ''demo''] 0]
      = (Inr (JStr ''1.9.0''), [Run [''python3'', ''-m'', ''pip'', ''show'', ''demo''] 0,
           UrlOpen ''https://pypi.org/pypi/demo/json'' 10])"
    by code_simp
  have v120: "Version ''1.2.0'' = Inr (plain [1, 2, 0])" by code_simp
  have v130: "Version ''1.3.0'' = Inr (plain [1, 3, 0])" by code_simp
  have v1100: "Version ''1.10.0'' = Inr (plain [1, 10, 0])" by code_simp
  have v190: "Version ''1.9.0'' = Inr (plain [1, 9, 0])" by code_simp
  have d120: "''1.2.0'' = dotted [1, 2, 0]" by code_simp
  have d130: "''1.3.0'' = dotted [1, 3, 0]" by code_simp
  have d1100: "''1.10.0'' = dotted [1, 10, 0]" by code_simp
  have d190: "''1.9.0'' = dotted [1, 9, 0]" by code_simp
  have lt1: "tuple_lt (<) (strip_zeros [1, 2, 0]) (strip_zeros [1, 3, 0 :: nat])" by code_simp
  have lt2: "\<not> tuple_lt (<) (strip_zeros [1, 10, 0]) (strip_zeros [1, 9, 0 :: nat])" by code_simp
  from update_available_iff_older [OF i1 l1 v120 v130, of False] obtain r t' where
    r: "check_package (demo_world ''1.2.0'' ''1.3.0'') ''demo'' False [] = (Inr r, t')"
    and "\<forall>ms ns. ms \<noteq> [] \<and> ns \<noteq> [] \<and> ''1.2.0'' = dotted ms \<and> ''1.3.0'' = dotted ns \<longrightarrow>
                 update_available r = tuple_lt (<) (strip_zeros ms) (strip_zeros ns)"
    by blast
  with d120 d130 have "update_available r = tuple_lt (<) (strip_zeros [1, 2, 0]) (strip_zeros [1, 3, 0])"
    by blast
  with lt1 r have 1: "\<exists>r t'. check_package (demo_world ''1.2.0'' ''1.3.0'') ''demo'' False [] = (Inr r, t')
        \<and> update_available r" by blast
  from update_available_iff_older [OF i2 l2 v1100 v190, of False] obtain r' t'' where
    r': "check_package (demo_world ''1.10.0'' ''1.9.0'') ''demo'' False [] = (Inr r', t'')"
    and "\<forall>ms ns. ms \<noteq> [] \<and> ns \<noteq> [] \<and> ''1.10.0'' = dotted ms \<and> ''1.9.0'' = dotted ns \<longrightarrow>
                 update_available r' = tuple_lt (<) (strip_zeros ms) (strip_zeros ns)"
    by blast
  with d1100 d190 have "update_available r' = tuple_lt (<) (strip_zeros [1, 10, 0]) (strip_zeros [1, 9, 0])"
    by blast
  with lt2 r' have 2: "\<exists>r t'. check_package (demo_world ''1.10.0'' ''1.9.0'') ''demo'' False [] = (Inr r, t')
        \<and> \<not> update_available r" by blast
  from 1 2 show ?thesis by blast
qed

text \<open>
  Claim C2. A package name that fails the name pattern, read as the specification words
  it (one alphanumeric character, optionally followed by characters from
  \<^verbatim>\<open>[A-Za-z0-9._-]\<close> ending in an alphanumeric character), should make
  \<^verbatim>\<open>get_latest_version\<close> return \<^verbatim>\<open>None\<close> without a network call. The pattern of the
  source ends in \<^verbatim>\<open>$\<close>, which also matches before a final line feed
  (\<open>valid_package_name_iff\<close>): the name \<^verbatim>\<open>requests\n\<close> fails the worded pattern and
  still reaches \<^verbatim>\<open>urlopen\<close>, with the line feed inside the URL. For every other name that
  fails the worded pattern the function returns \<^verbatim>\<open>None\<close> and opens nothing
  (\<open>get_latest_version_invalid_name\<close>).
\<close>

theorem newline_name_reaches_network:
  "\<not> valid_name_spec (''requests'' @ [LF])
   \<and> snd (get_latest_version e (''requests'' @ [LF]) t)
       = t @ [UrlOpen (''https://pypi.org/pypi/requests'' @ [LF] @ ''/json'') 10]
   \<and> network_called (snd (get_latest_version e (''requests'' @ [LF]) []))"
proof -
  have 1: "\<not> valid_name_spec (''requests'' @ [LF])" by code_simp
  have 2: "re_match VALID_PACKAGE_NAME (''requests'' @ [LF]) \<noteq> None" by code_simp
  have 3: "snd (get_latest_version e (''requests'' @ [LF]) t)
       = t @ [UrlOpen (''https://pypi.org/pypi/requests'' @ [LF] @ ''/json'') 10]" for t
    using 2 by (simp add: get_latest_version_def Let_def split: sum.splits)
  from 1 3 [of t] 3 [of "[]"] show ?thesis by (simp add: network_called_def)
qed

text \<open>
  Claim C3. When the lookup of the installed version returns \<^verbatim>\<open>None\<close>,
  \<^verbatim>\<open>check_package\<close> returns a result with no installed version, update-available false
  and updated false, and the upgrade command is not among the events of the call.
\<close>

theorem not_installed_result:
  assumes "fst (get_installed_version e pkg t) = None"
  shows "\<exists>r t'. check_package e pkg do_update t = (Inr r, t')
           \<and> installed r = None \<and> \<not> update_available r \<and> \<not> updated r
           \<and> \<not> upgrade_invoked e pkg (drop (length t) t')"
proof -
  obtain rc where rc: "snd (get_installed_version e pkg t) = t @ [Run (pip_show_argv e pkg) rc]"
    using get_installed_version_trace by blast
  with assms have "get_installed_version e pkg t = (None, t @ [Run (pip_show_argv e pkg) rc])"
    by (simp add: prod_eq_iff)
  from check_package_not_installed [OF this]
  show ?thesis by (simp add: upgrade_invoked_def show_is_not_upgrade)
qed

theorem not_installed_result_witness:
  "fst (get_installed_version absent_world ''demo'' []) = None
   \<and> (\<exists>r t'. check_package absent_world ''demo'' True [] = (Inr r, t')
         \<and> installed r = None \<and> \<not> update_available r \<and> \<not> updated r
         \<and> \<not> upgrade_invoked absent_world ''demo'' (drop (length ([] :: event list)) t'))"
proof -
  have h: "fst (get_installed_version absent_world ''demo'' []) = None" by code_simp
  from not_installed_result [OF h, of True] h show ?thesis by blast
qed

text \<open>
  Claim C4. \<^verbatim>\<open>get_latest_version\<close> should return \<^verbatim>\<open>None\<close> on every network error,
  timeout, malformed body and missing \<^verbatim>\<open>info.version\<close>, and let no exception escape. It
  catches \<^verbatim>\<open>URLError\<close>, \<^verbatim>\<open>JSONDecodeError\<close> and \<^verbatim>\<open>KeyError\<close>
  (\<open>get_latest_version_caught\<close>) and nothing else (\<open>get_latest_version_escapes\<close>): a
  body that is valid JSON but not an object, such as \<^verbatim>\<open>[]\<close>, or whose \<^verbatim>\<open>info\<close> is not
  an object, such as \<^verbatim>\<open>{"info": null}\<close>, has no \<^verbatim>\<open>info.version\<close> and raises
  \<^verbatim>\<open>TypeError\<close>; a timeout that is raised as \<^verbatim>\<open>TimeoutError\<close> escapes as well.
\<close>

theorem reply_without_object_raises:
  "get_latest_version (world (0, pip_output ''1.0'') 0 (Inr ''[]'') (Inr (JArr [])) (Inl FileNotFoundError))
       ''requests'' []
     = (Inl TypeError, [UrlOpen ''https://pypi.org/pypi/requests/json'' 10])
   \<and> get_latest_version (world (0, pip_output ''1.0'') 0 (Inr ''{\"info\": null}'')
         (Inr (JObj [(''info'', JNull)])) (Inl FileNotFoundError)) ''requests'' []
     = (Inl TypeError, [UrlOpen ''https://pypi.org/pypi/requests/json'' 10])
   \<and> get_latest_version (world (0, pip_output ''1.0'') 0 (Inl TimeoutError) (Inr JNull)
         (Inl FileNotFoundError)) ''requests'' []
     = (Inl TimeoutError, [UrlOpen ''https://pypi.org/pypi/requests/json'' 10])"
  by code_simp

text \<open>
  Claim C5. The manifest reader skips a blank line and a line that begins with \<^verbatim>\<open>#\<close>;
  from a line that, stripped, is a package name followed by nothing or by a character that
  cannot be part of a name (an extras bracket, a version or environment qualifier, a
  space), it takes the name; and the line
  \<^verbatim>\<open>requests[security]>=2.0; python_version>="3.6"\<close> gives \<^verbatim>\<open>requests\<close>.
\<close>

theorem manifest_reader:
  "(strip l = [] \<or> startswith l ''#'' \<longrightarrow>
      read_packages (xs @ l # ys) = read_packages xs @ read_packages ys)
 \<and> (\<forall>n rest. strip l = n @ rest \<and> valid_name_spec n \<and> (rest = [] \<or> \<not> is_name_char (hd rest)) \<longrightarrow>
      read_packages (xs @ l # ys) = read_packages xs @ Some n # read_packages ys)
 \<and> read_packages [''requests[security]>=2.0; python_version>=\"3.6\"'' @ [LF]] = [Some ''requests'']"
proof (intro conjI impI allI)
  assume "strip l = [] \<or> startswith l ''#''"
  then have "strip l = [] \<or> startswith (strip l) ''#''" using strip_hash by blast
  from read_packages_skip [OF this] show "read_packages (xs @ l # ys) = read_packages xs @ read_packages ys"
    by (simp only: read_packages_append)
next
  fix n rest
  assume "strip l = n @ rest \<and> valid_name_spec n \<and> (rest = [] \<or> \<not> is_name_char (hd rest))"
  then have "read_packages (l # ys) = Some n # read_packages ys"
    using read_packages_name by blast
  then show "read_packages (xs @ l # ys) = read_packages xs @ Some n # read_packages ys"
    by (simp only: read_packages_append)
next
  show "read_packages [''requests[security]>=2.0; python_version>=\"3.6\"'' @ [LF]] = [Some ''requests'']"
    by code_simp
qed

theorem manifest_reader_witness:
  "strip [LF] = []
   \<and> read_packages ([''flask==2.0'' @ [LF]] @ [LF] # [''# pinned'' @ [LF]])
       = read_packages [''flask==2.0'' @ [LF]] @ read_packages [''# pinned'' @ [LF]]
   \<and> startswith (''# pinned'' @ [LF]) ''#''
   \<and> read_packages ([''flask==2.0'' @ [LF]] @ (''# pinned'' @ [LF]) # [])
       = read_packages [''flask==2.0'' @ [LF]] @ read_packages []
   \<and> valid_name_spec ''Django''
   \<and> read_packages ([] @ (''  Django >= 4.2 ; python_version < \"3.12\"'' @ [LF]) # [])
       = read_packages [] @ Some ''Django'' # read_packages []"
proof -
  have b: "strip [LF] = []" by code_simp
  have h: "startswith (''# pinned'' @ [LF]) ''#''" by code_simp
  have s: "strip (''  Django >= 4.2 ; python_version < \"3.12\"'' @ [LF])
      = ''Django'' @ '' >= 4.2 ; python_version < \"3.12\"''" by code_simp
  have v: "valid_name_spec ''Django''" by code_simp
  have r: "\<not> is_name_char (hd '' >= 4.2 ; python_version < \"3.12\"'')" by code_simp
  from manifest_reader [of "[LF]" "[''flask==2.0'' @ [LF]]" "[''# pinned'' @ [LF]]"] b
  have 1: "read_packages ([''flask==2.0'' @ [LF]] @ [LF] # [''# pinned'' @ [LF]])
       = read_packages [''flask==2.0'' @ [LF]] @ read_packages [''# pinned'' @ [LF]]" by blast
  from manifest_reader [of "''# pinned'' @ [LF]" "[''flask==2.0'' @ [LF]]" "[]"] h
  have 2: "read_packages ([''flask==2.0'' @ [LF]] @ (''# pinned'' @ [LF]) # [])
       = read_packages [''flask==2.0'' @ [LF]] @ read_packages []" by blast
  from manifest_reader [of "''  Django >= 4.2 ; python_version < \"3.12\"'' @ [LF]" "[]" "[]"] s v r
  have 3: "read_packages ([] @ (''  Django >= 4.2 ; python_version < \"3.12\"'' @ [LF]) # [])
       = read_packages [] @ Some ''Django'' # read_packages []" by blast
  from b h v 1 2 3 show ?thesis by blast
qed

text \<open>
  Claim C6. When the requirements file does not exist, \<^verbatim>\<open>check_requirements_file\<close>
  prints an error message, returns the empty list and raises nothing, and \<^verbatim>\<open>main\<close> goes
  on to print its summary and returns.
\<close>

theorem missing_requirements_file:
  assumes "\<forall>t. open_file e t path = Inl FileNotFoundError"
  shows "check_requirements_file e path do_update t =
           (Inr [], t @ [Open path,
              Print (''Error: requirements file '' @ [CHR 0x27] @ path @ [CHR 0x27] @ '' not found.'')])
       \<and> main e \<lparr>arg_package = None, arg_requirements = Some path, arg_update = do_update\<rparr> t =
           (Inr (), t @ [Print ''Checking for updates...'', Open path,
              Print (''Error: requirements file '' @ [CHR 0x27] @ path @ [CHR 0x27] @ '' not found.''),
              Print ([LF] @ ''All packages are up to date.'')])"
  using assms
  by (simp add: check_requirements_file_def main_def main_results_def summary_def
      updates_available_def Let_def)

theorem missing_requirements_file_witness:
  "(\<forall>t. open_file absent_world t ''requirements.txt'' = Inl FileNotFoundError)
   \<and> fst (check_requirements_file absent_world ''requirements.txt'' False []) = Inr []
   \<and> error_printed (snd (check_requirements_file absent_world ''requirements.txt'' False []))
   \<and> fst (main absent_world \<lparr>arg_package = None, arg_requirements = Some ''requirements.txt'',
                 arg_update = False\<rparr> []) = Inr ()"
proof -
  have h: "\<forall>t. open_file absent_world t ''requirements.txt'' = Inl FileNotFoundError"
    by (simp add: absent_world_def world_def)
  from missing_requirements_file [OF h, of False "[]"] h show ?thesis
    by (simp add: error_printed_def startswith_def)
qed

text \<open>
  Claim C7. Whatever results a run produces, and with or without \<^verbatim>\<open>--update\<close>, the
  number that \<^verbatim>\<open>main\<close> prints in its summary is the number of results whose
  update-available flag is true; when that number is zero the summary says that all
  packages are up to date. The printed numeral reads back as the number
  (\<open>int_of_digits_str_nat\<close>).
\<close>

theorem summary_count:
  assumes "main_results e a t = (Inr results, t1)"
  shows "main e a t =
           (Inr (), t1 @
              (let n = length (filter update_available results)
               in if n \<noteq> 0
                  then Print ([LF] @ str_nat n @ '' update(s) available.'')
                         # (if arg_update a then [] else [Print ''Run with --update to apply updates.''])
                  else [Print ([LF] @ ''All packages are up to date.'')]))"
  using assms by (simp add: main_def summary_def updates_available_count Let_def)

theorem summary_count_witness:
  "main (manifest_world [''flask==2.0'' @ [LF], ''# pinned'' @ [LF], ''requests>=2.0'' @ [LF]])
      \<lparr>arg_package = None, arg_requirements = Some ''requirements.txt'', arg_update = False\<rparr> []
   = (Inr (),
      [Print ''Checking for updates...'', Open ''requirements.txt'',
       Run [''python3'', ''-m'', ''pip'', ''show'', ''flask''] 0,
       UrlOpen ''https://pypi.org/pypi/flask/json'' 10,
       Print ''  flask: 1.2.0 -> 1.3.0 (update available)'',
       Run [''python3'', ''-m'', ''pip'', ''show'', ''requests''] 0,
       UrlOpen ''https://pypi.org/pypi/requests/json'' 10,
       Print ''  requests: 1.2.0 -> 1.3.0 (update available)'']
      @ [Print ([LF] @ ''2 update(s) available.''), Print ''Run with --update to apply updates.''])"
proof -
  have mr: "main_results (manifest_world [''flask==2.0'' @ [LF], ''# pinned'' @ [LF], ''requests>=2.0'' @ [LF]])
      \<lparr>arg_package = None, arg_requirements = Some ''requirements.txt'', arg_update = False\<rparr> []
    = (Inr [\<lparr>package = ''flask'', installed = Some ''1.2.0'', latest = JStr ''1.3.0'',
              update_available = True, updated = False\<rparr>,
            \<lparr>package = ''requests'', installed = Some ''1.2.0'', latest = JStr ''1.3.0'',
              update_available = True, updated = False\<rparr>],
       [Print ''Checking for updates...'', Open ''requirements.txt'',
        Run [''python3'', ''-m'', ''pip'', ''show'', ''flask''] 0,
        UrlOpen ''https://pypi.org/pypi/flask/json'' 10,
        Print ''  flask: 1.2.0 -> 1.3.0 (update available)'',
        Run [''python3'', ''-m'', ''pip'', ''show'', ''requests''] 0,
        UrlOpen ''https://pypi.org/pypi/requests/json'' 10,
        Print ''  requests: 1.2.0 -> 1.3.0 (update available)''])"
    by code_simp
  from summary_count [OF mr] show ?thesis by (simp add: str_nat.simps digit_char_def)
qed

text \<open>
  Claim C8. When the installed and the latest version are both present and one of them
  cannot be parsed, \<^verbatim>\<open>check_package\<close> raises \<^verbatim>\<open>InvalidVersion\<close> for the first one that
  cannot be parsed: no result is returned and nothing more is printed.
\<close>

theorem unparseable_version_raises:
  assumes "get_installed_version e pkg t = (Some i, t1)"
    and "get_latest_version e pkg t1 = (Inr (JStr l), t2)"
    and "\<not> parseable i \<or> \<not> parseable l"
  shows "check_package e pkg do_update t =
           (Inl (if \<not> parseable i then InvalidVersion i else InvalidVersion l), t2)"
proof (cases "Version i")
  case (Inl x)
  then have "x = InvalidVersion i" by (rule Version_Inl)
  with Inl assms(1,2) show ?thesis by (simp add: check_package_def parseable_def)
next
  case (Inr vi)
  with assms(3) obtain x where x: "Version l = Inl x" by (auto simp: parseable_def split: sum.splits)
  then have "x = InvalidVersion l" by (rule Version_Inl)
  with Inr x assms(1,2) show ?thesis by (simp add: check_package_def parseable_def)
qed

theorem unparseable_version_raises_witness:
  "\<not> parseable ''not-a-version'' \<and> parseable ''1.0''
   \<and> fst (check_package (demo_world ''not-a-version'' ''1.0'') ''demo'' False [])
       = Inl (InvalidVersion ''not-a-version'')
   \<and> fst (check_package (demo_world ''1.0'' ''not-a-version'') ''demo'' False [])
       = Inl (InvalidVersion ''not-a-version'')"
proof -
  have p1: "\<not> parseable ''not-a-version''" by code_simp
  have p2: "parseable ''1.0''" by code_simp
  have i1: "get_installed_version (demo_world ''not-a-version'' ''1.0'') ''demo'' []
      = (Some ''not-a-version'', [Run [''python3'', ''-m'', ''pip'', ''show'', ''demo''] 0])"
    by code_simp
  have l1: "get_latest_version (demo_world ''not-a-version'' ''1.0'') ''demo''
        [Run [''python3'', ''-m'', ''pip'', ''show'', ''demo''] 0]
      = (Inr (JStr ''1.0''), [Run [''python3'', ''-m'', ''pip'', ''show'', ''demo''] 0,
           UrlOpen ''https://pypi.org/pypi/demo/json'' 10])"
    by code_simp
  have i2: "get_installed_version (demo_world ''1.0'' ''not-a-version'') ''demo'' []
      = (Some ''1.0'', [Run [''python3'', ''-m'', ''pip'', ''show'', ''demo''] 0])"
    by code_simp
  have l2: "get_latest_version (demo_world ''1.0'' ''not-a-version'') ''demo''
        [Run [''python3'', ''-m'', ''pip'', ''show'', ''demo''] 0]
      = (Inr (JStr ''not-a-version''), [Run [''python3'', ''-m'', ''pip'', ''show'', ''demo''] 0,
           UrlOpen ''https://pypi.org/pypi/demo/json'' 10])"
    by code_simp
  from unparseable_version_raises [OF i1 l1, of False] p1
  have "fst (check_package (demo_world ''not-a-version'' ''1.0'') ''demo'' False [])
       = Inl (InvalidVersion ''not-a-version'')" by simp
  moreover from unparseable_version_raises [OF i2 l2, of False] p1 p2
  have "fst (check_package (demo_world ''1.0'' ''not-a-version'') ''demo'' False [])
       = Inl (InvalidVersion ''not-a-version'')" by simp
  ultimately show ?thesis using p1 p2 by blast
qed

text \<open>
  Claim C9. Every result that \<^verbatim>\<open>check_package\<close> returns satisfies: if updated is true then
  update-available is true, an update was requested, and the upgrade command was run in
  this call with return code 0; if update-available is true then the installed and the
  latest version are both present.
\<close>

theorem check_package_invariant:
  assumes "check_package e pkg do_update t = (Inr r, t')"
  shows "(updated r \<longrightarrow> update_available r \<and> do_update
            \<and> Run (pip_upgrade_argv e pkg) 0 \<in> set (drop (length t) t'))
       \<and> (update_available r \<longrightarrow> installed r \<noteq> None \<and> latest r \<noteq> JNull)"
proof -
  obtain inst t1 where i: "get_installed_version e pkg t = (inst, t1)" by (cases "get_installed_version e pkg t")
  obtain rc where "t1 = t @ [Run (pip_show_argv e pkg) rc]"
    using get_installed_version_trace [of e pkg t] i by auto
  then have l1: "length t \<le> length t1" by simp
  obtain lat t2 where l: "get_latest_version e pkg t1 = (lat, t2)" by (cases "get_latest_version e pkg t1")
  have l2: "length t1 \<le> length t2" using get_latest_version_trace [of e pkg t1] l by auto
  show ?thesis
  proof (cases "updated r")
    case False
    with assms i l show ?thesis
      by (auto simp: check_package_def Let_def
          split: option.splits sum.splits json.splits if_splits prod.splits)
  next
    case True
    with assms i l obtain t3 t4 ok where "update_package e pkg t3 = (ok, t4)" "ok" "length t2 \<le> length t3"
      and t': "t' = t4 @ [Print (''  '' @ pkg @ '': updated successfully to '' @ (case lat of Inr (JStr l) \<Rightarrow> l | _ \<Rightarrow> []))]"
      and r: "update_available r" "do_update" "installed r \<noteq> None" "latest r \<noteq> JNull"
      by (auto simp: check_package_def Let_def
          split: option.splits sum.splits json.splits if_splits prod.splits)
    with update_package_trace obtain rcu where "t4 = t3 @ [Run (pip_upgrade_argv e pkg) rcu]" "rcu = 0"
      by blast
    with l1 l2 \<open>length t2 \<le> length t3\<close> t' have "Run (pip_upgrade_argv e pkg) 0 \<in> set (drop (length t) t')"
      by simp
    with r True show ?thesis by simp
  qed
qed

theorem check_package_invariant_witness:
  "\<exists>r t'. check_package (demo_world ''1.2.0'' ''1.3.0'') ''demo'' True [] = (Inr r, t')
     \<and> updated r \<and> update_available r
     \<and> Run (pip_upgrade_argv (demo_world ''1.2.0'' ''1.3.0'') ''demo'') 0 \<in> set t'
     \<and> installed r \<noteq> None \<and> latest r \<noteq> JNull"
proof -
  have ev: "check_package (demo_world ''1.2.0'' ''1.3.0'') ''demo'' True [] =
    (Inr \<lparr>package = ''demo'', installed = Some ''1.2.0'', latest = JStr ''1.3.0'',
           update_available = True, updated = True\<rparr>,
     [Run [''python3'', ''-m'', ''pip'', ''show'', ''demo''] 0,
      UrlOpen ''https://pypi.org/pypi/demo/json'' 10,
      Print ''  demo: 1.2.0 -> 1.3.0 (update available)'',
      Run [''python3'', ''-m'', ''pip'', ''install'', ''--upgrade'', ''demo''] 0,
      Print ''  demo: updated successfully to 1.3.0''])"
    by code_simp
  from check_package_invariant [OF ev] ev show ?thesis by simp
qed

text \<open>
  Claim C10. A line that, stripped, is not empty, does not begin with \<^verbatim>\<open>#\<close> and does
  not begin with an alphanumeric character (such as \<^verbatim>\<open>-r other.txt\<close> or \<^verbatim>\<open>-e .\<close>)
  is skipped without a trace: the reader extracts what it extracts without the line, and
  \<^verbatim>\<open>check_requirements_file\<close> returns the results and produces the events of the other
  lines only.
\<close>

theorem unnamed_line_skipped:
  assumes "strip l \<noteq> []" and "\<not> startswith (strip l) ''#''" and "\<not> is_alnum (hd (strip l))"
  shows "read_packages (xs @ l # ys) = read_packages (xs @ ys)
       \<and> (open_file e t f = Inr (xs @ l # ys) \<longrightarrow>
            check_requirements_file e f do_update t =
              check_packages e (read_packages (xs @ ys)) do_update (t @ [Open f]))"
proof -
  from assms(3) have "re_match REQUIREMENT_LINE (strip l) = None"
    by (intro requirement_line_no_match) simp
  with assms(1,2) have "read_packages (l # ys) = read_packages ys" by simp
  then have "read_packages (xs @ l # ys) = read_packages (xs @ ys)"
    by (simp only: read_packages_append)
  then show ?thesis by (simp add: check_requirements_file_def)
qed

theorem unnamed_line_skipped_witness:
  "strip (''-r other.txt'' @ [LF]) \<noteq> []
   \<and> \<not> startswith (strip (''-r other.txt'' @ [LF])) ''#''
   \<and> \<not> is_alnum (hd (strip (''-r other.txt'' @ [LF])))
   \<and> read_packages ([''flask'' @ [LF]] @ (''-r other.txt'' @ [LF]) # [''requests'' @ [LF]])
       = read_packages ([''flask'' @ [LF]] @ [''requests'' @ [LF]])
   \<and> check_requirements_file (manifest_world ([] @ (''-e .'' @ [LF]) # [])) ''requirements.txt'' False []
       = (Inr [], [Open ''requirements.txt''])"
proof -
  have r1: "strip (''-r other.txt'' @ [LF]) \<noteq> []" by code_simp
  have r2: "\<not> startswith (strip (''-r other.txt'' @ [LF])) ''#''" by code_simp
  have r3: "\<not> is_alnum (hd (strip (''-r other.txt'' @ [LF])))" by code_simp
  have e1: "strip (''-e .'' @ [LF]) \<noteq> []" by code_simp
  have e2: "\<not> startswith (strip (''-e .'' @ [LF])) ''#''" by code_simp
  have e3: "\<not> is_alnum (hd (strip (''-e .'' @ [LF])))" by code_simp
  have o: "open_file (manifest_world ([] @ (''-e .'' @ [LF]) # [])) [] ''requirements.txt''
      = Inr ([] @ (''-e .'' @ [LF]) # [])"
    by (simp add: manifest_world_def world_def)
  from unnamed_line_skipped [OF r1 r2 r3, of "[''flask'' @ [LF]]" "[''requests'' @ [LF]]"]
  have 1: "read_packages ([''flask'' @ [LF]] @ (''-r other.txt'' @ [LF]) # [''requests'' @ [LF]])
       = read_packages ([''flask'' @ [LF]] @ [''requests'' @ [LF]])" by blast
  from unnamed_line_skipped [OF e1 e2 e3, of "[]" "[]"
      "manifest_world ([] @ (''-e .'' @ [LF]) # [])" "[]" "''requirements.txt''" False] o
  have 2: "check_requirements_file (manifest_world ([] @ (''-e .'' @ [LF]) # [])) ''requirements.txt'' False []
       = (Inr [], [Open ''requirements.txt''])" by simp
  from r1 r2 r3 1 2 show ?thesis by blast
qed

end
